theory Spec2Isabelle
  imports Main
begin

section \<open>The autoscaler bootstrap batch: staged start-up under supervisord\<close>

text \<open>
  The module \<^verbatim>\<open>clusterman/batch/autoscaler_bootstrap.py\<close> spawns supervisord, waits for
  the process group \<^verbatim>\<open>fetch_signals\<close> to exit, starts \<^verbatim>\<open>run_signals\<close>, waits for it to
  run, starts the autoscaler, polls it, and finally shuts supervisord down and waits for it.

  Everything the module does is a call into the outside world, so the model is a
  state-passing interpreter over a \<open>world\<close>: the outcomes the outside world will give to
  the calls still to come (\<open>script\<close>), the successive values of the attribute
  \<^verbatim>\<open>self.running\<close> (\<open>running\<close>), and the history of what has been done so far
  (\<open>trace\<close>). A call either returns a value or raises; a function of the model yields
  \<open>None\<close> when the script ends before the function has returned.
\<close>

subsection \<open>Exceptions, calls and the world\<close>

text \<open>
  What a call into the outside world can raise: \<open>OSError\<close> stands for any instance of
  Python's \<^verbatim>\<open>OSError\<close> (and its subclasses, such as a refused connection),
  \<open>OtherException\<close> for an instance of any other subclass of \<^verbatim>\<open>Exception\<close>, named by
  its class (such as \<^verbatim>\<open>xmlrpc.client.Fault\<close>). The module adds one exception of
  its own, which only \<^verbatim>\<open>wait_for_process\<close> raises.
\<close>

datatype external = OSError | KeyboardInterrupt | OtherException string

datatype exn = AutoscalerBootstrapException string | External external

text \<open>
  The outcome of one call. For \<^verbatim>\<open>getProcessInfo\<close> the value returned is the entry
  \<^verbatim>\<open>"statename"\<close> of the answer; the module ignores what every other call returns.
\<close>

datatype outcome = Returns string | Raises external

datatype operation =
    GetProcessInfo string
  | StartProcessGroup string
  | StartProcess string
  | Shutdown
  | Sleep int
  | ProcWait

datatype event =
    Called operation outcome
  | Popen
  | LogInfo string
  | LogWarning

record world =
  trace :: "event list"
  script :: "outcome list"
  running :: "bool list"

type_synonym 'a io = "world \<Rightarrow> ((exn + 'a) \<times> world) option"

definition emit :: "event \<Rightarrow> world \<Rightarrow> world" where
  "emit ev w = w\<lparr>trace := trace w @ [ev]\<rparr>"

definition call :: "operation \<Rightarrow> string io" where
  "call p w =
     (case script w of
        [] \<Rightarrow> None
      | out # rest \<Rightarrow>
          Some (case out of Returns v \<Rightarrow> Inr v | Raises e \<Rightarrow> Inl (External e),
                w\<lparr>trace := trace w @ [Called p out], script := rest\<rparr>))"

definition read_running :: "world \<Rightarrow> (bool \<times> world) option" where
  "read_running w =
     (case running w of
        [] \<Rightarrow> None
      | b # bs \<Rightarrow> Some (b, w\<lparr>running := bs\<rparr>))"

text \<open>Sequencing: an exception of the first part skips the second.\<close>

definition ret :: "'a \<Rightarrow> 'a io" where
  "ret v w = Some (Inr v, w)"

definition seq :: "'a io \<Rightarrow> ('a \<Rightarrow> 'b io) \<Rightarrow> 'b io" where
  "seq m f w =
     (case m w of
        None \<Rightarrow> None
      | Some (Inl e, w1) \<Rightarrow> Some (Inl e, w1)
      | Some (Inr v, w1) \<Rightarrow> f v w1)"

subsection \<open>Process names\<close>

text \<open>Python's \<^verbatim>\<open>str\<close> on a non-negative integer: its decimal digits.\<close>

fun str :: "nat \<Rightarrow> string" where
  "str n = (if n < 10 then [''0123456789'' ! n] else str (n div 10) @ [''0123456789'' ! (n mod 10)])"

declare str.simps [simp del]

text \<open>The f-string \<^verbatim>\<open>f"{process_name}:{process_name}_{i}"\<close>.\<close>

definition proc_id :: "string \<Rightarrow> nat \<Rightarrow> string" where
  "proc_id process_name i = process_name @ '':'' @ process_name @ ''_'' @ str i"

text \<open>\<^verbatim>\<open>range(num_procs)\<close>: empty when \<open>num_procs \<le> 0\<close>.\<close>

definition range_py :: "int \<Rightarrow> nat list" where
  "range_py n = [0..<nat n]"

definition SUPERVISORD_RUNNING_STATES :: "string list" where
  "SUPERVISORD_RUNNING_STATES = [''STARTING'', ''RUNNING'']"

subsection \<open>\<^verbatim>\<open>wait_for_process\<close>\<close>

text \<open>
  The list comprehension of one poll: one \<^verbatim>\<open>getProcessInfo\<close> per index, in order; the
  first call that raises ends the comprehension, and the states read so far are lost.
\<close>

fun get_states :: "string \<Rightarrow> nat list \<Rightarrow> string list io" where
  "get_states process_name [] w = Some (Inr [], w)"
| "get_states process_name (i # is) w =
     (case call (GetProcessInfo (proc_id process_name i)) w of
        None \<Rightarrow> None
      | Some (Inl e, w1) \<Rightarrow> Some (Inl e, w1)
      | Some (Inr s, w1) \<Rightarrow>
          (case get_states process_name is w1 of
             None \<Rightarrow> None
           | Some (Inl e, w2) \<Rightarrow> Some (Inl e, w2)
           | Some (Inr ss, w2) \<Rightarrow> Some (Inr (s # ss), w2)))"

lemma call_script_length:
  "call p w = Some (r, w') \<Longrightarrow> length (script w') < length (script w)"
  by (auto simp: call_def split: list.splits)

lemma call_running: "call p w = Some (r, w') \<Longrightarrow> running w' = running w"
  by (auto simp: call_def split: list.splits)

lemma get_states_script_length:
  "get_states process_name is w = Some (r, w') \<Longrightarrow> length (script w') \<le> length (script w)"
proof (induction "is" arbitrary: w r w')
  case Nil
  then show ?case by simp
next
  case (Cons i "is")
  then show ?case
    by (fastforce split: option.splits sum.splits prod.splits dest: call_script_length)
qed

text \<open>
  The \<^verbatim>\<open>while True\<close> loop. \<^verbatim>\<open>except OSError\<close> catches \<open>OSError\<close> only; every other
  exception of the comprehension leaves the function.
\<close>

function wait_for_process_loop :: "string \<Rightarrow> int \<Rightarrow> string \<Rightarrow> unit io" where
  "wait_for_process_loop process_name num_procs terminal_state w =
     (case get_states process_name (range_py num_procs) w of
        None \<Rightarrow> None
      | Some (Inl e, w1) \<Rightarrow>
          (if e = External OSError then
             (case call (Sleep 1) (emit LogWarning w1) of
                None \<Rightarrow> None
              | Some (Inl e', w2) \<Rightarrow> Some (Inl e', w2)
              | Some (Inr _, w2) \<Rightarrow>
                  wait_for_process_loop process_name num_procs terminal_state w2)
           else Some (Inl e, w1))
      | Some (Inr states, w1) \<Rightarrow>
          (if list_ex (\<lambda>state. state = ''FATAL'') states then
             Some (Inl (AutoscalerBootstrapException
                          (''Process '' @ process_name @ '' could not start; aborting'')), w1)
           else if list_all (\<lambda>state. state = terminal_state) states then Some (Inr (), w1)
           else
             (case call (Sleep 1) w1 of
                None \<Rightarrow> None
              | Some (Inl e', w2) \<Rightarrow> Some (Inl e', w2)
              | Some (Inr _, w2) \<Rightarrow>
                  wait_for_process_loop process_name num_procs terminal_state w2)))"
  by pat_completeness auto
termination
proof (relation "measure (\<lambda>(process_name, num_procs, terminal_state, w). length (script w))")
  show "wf (measure (\<lambda>(process_name, num_procs, terminal_state, w). length (script w)))"
    by simp
next
  fix process_name :: string and num_procs :: int and terminal_state :: string
    and w w1 w2 :: world and x2 :: "(exn + string list) \<times> world" and x1 :: "exn + string list"
    and e :: exn and x2a :: "(exn + string) \<times> world" and x1a :: "exn + string" and v :: string
  assume "get_states process_name (range_py num_procs) w = Some x2" "(x1, w1) = x2"
    "call (Sleep 1) (emit LogWarning w1) = Some x2a" "(x1a, w2) = x2a"
  then have "length (script w1) \<le> length (script w)"
    and "length (script w2) < length (script (emit LogWarning w1))"
    by (auto dest: get_states_script_length call_script_length)
  then show "((process_name, num_procs, terminal_state, w2),
              (process_name, num_procs, terminal_state, w)) \<in>
             measure (\<lambda>(process_name, num_procs, terminal_state, w). length (script w))"
    by (simp add: emit_def)
next
  fix process_name :: string and num_procs :: int and terminal_state :: string
    and w w1 w2 :: world and x2 :: "(exn + string list) \<times> world" and x1 :: "exn + string list"
    and x2a :: "(exn + string) \<times> world" and x1a :: "exn + string"
  assume "get_states process_name (range_py num_procs) w = Some x2" "(x1, w1) = x2"
    "call (Sleep 1) w1 = Some x2a" "(x1a, w2) = x2a"
  then have "length (script w1) \<le> length (script w)" and "length (script w2) < length (script w1)"
    by (auto dest: get_states_script_length call_script_length)
  then show "((process_name, num_procs, terminal_state, w2),
              (process_name, num_procs, terminal_state, w)) \<in>
             measure (\<lambda>(process_name, num_procs, terminal_state, w). length (script w))"
    by simp
qed

declare wait_for_process_loop.simps [simp del]

definition wait_for_process :: "string \<Rightarrow> int \<Rightarrow> string \<Rightarrow> unit io" where
  "wait_for_process process_name num_procs terminal_state w =
     wait_for_process_loop process_name num_procs terminal_state
       (emit (LogInfo (''waiting for '' @ process_name @ '' to start'')) w)"

subsection \<open>\<^verbatim>\<open>AutoscalerBootstrapBatch.run\<close>\<close>

text \<open>
  The steady-state loop: \<^verbatim>\<open>self.running\<close> is read first, and the autoscaler is asked
  only when it is true (\<^verbatim>\<open>and\<close> is short-circuit).
\<close>

lemma read_running_length:
  "read_running w = Some (b, w') \<Longrightarrow> length (running w') < length (running w)"
  by (auto simp: read_running_def split: list.splits)

function steady_state_loop :: "unit io" where
  "steady_state_loop w =
     (case read_running w of
        None \<Rightarrow> None
      | Some (b, w1) \<Rightarrow>
          (if \<not> b then Some (Inr (), w1)
           else
             (case call (GetProcessInfo ''autoscaler'') w1 of
                None \<Rightarrow> None
              | Some (Inl e, w2) \<Rightarrow> Some (Inl e, w2)
              | Some (Inr statename, w2) \<Rightarrow>
                  (if statename \<in> set SUPERVISORD_RUNNING_STATES then
                     (case call (Sleep 5) w2 of
                        None \<Rightarrow> None
                      | Some (Inl e, w3) \<Rightarrow> Some (Inl e, w3)
                      | Some (Inr _, w3) \<Rightarrow> steady_state_loop w3)
                   else Some (Inr (), w2)))))"
  by pat_completeness auto
termination
proof (relation "measure (\<lambda>w. length (running w))")
  show "wf (measure (\<lambda>w. length (running w)))"
    by simp
next
  fix w w1 w2 w3 :: world and x2 :: "bool \<times> world" and b :: bool
    and x2a x2b :: "(exn + string) \<times> world" and x1a x1b :: "exn + string"
  assume "read_running w = Some x2" "(b, w1) = x2"
    "call (GetProcessInfo ''autoscaler'') w1 = Some x2a" "(x1a, w2) = x2a"
    "call (Sleep 5) w2 = Some x2b" "(x1b, w3) = x2b"
  then have "length (running w1) < length (running w)" "running w2 = running w1"
    "running w3 = running w2"
    by (auto dest: read_running_length call_running)
  then show "(w3, w) \<in> measure (\<lambda>w. length (running w))"
    by simp
qed

declare steady_state_loop.simps [simp del]

text \<open>The suite of the \<^verbatim>\<open>try\<close> statement.\<close>

definition run_try :: "int \<Rightarrow> int \<Rightarrow> unit io" where
  "run_try fetch_proc_count run_proc_count =
     seq (wait_for_process ''fetch_signals'' fetch_proc_count ''EXITED'') (\<lambda>_.
     seq (call (StartProcessGroup ''run_signals'')) (\<lambda>_.
     seq (wait_for_process ''run_signals'' run_proc_count ''RUNNING'') (\<lambda>_.
     seq (call (StartProcess ''autoscaler'')) (\<lambda>_.
     steady_state_loop))))"

text \<open>
  The \<^verbatim>\<open>try\<close> statement with its handler and its \<^verbatim>\<open>finally\<close> clause. The handler
  catches \<open>KeyboardInterrupt\<close> and sets \<^verbatim>\<open>skip_supervisord_cleanup\<close>; any other
  exception stays pending while the \<^verbatim>\<open>finally\<close> clause runs, and is raised again
  after it unless \<^verbatim>\<open>shutdown\<close> raised itself.
\<close>

definition run_with_rpc :: "int \<Rightarrow> int \<Rightarrow> unit io" where
  "run_with_rpc fetch_proc_count run_proc_count w =
     (case run_try fetch_proc_count run_proc_count w of
        None \<Rightarrow> None
      | Some (r, w1) \<Rightarrow>
          (let skip_supervisord_cleanup = (r = Inl (External KeyboardInterrupt));
               pending = (if skip_supervisord_cleanup then Inr () else r)
           in if \<not> skip_supervisord_cleanup then
                (case call Shutdown w1 of
                   None \<Rightarrow> None
                 | Some (Inl e, w2) \<Rightarrow> Some (Inl e, w2)
                 | Some (Inr _, w2) \<Rightarrow> Some (pending, w2))
              else Some (pending, w1)))"

text \<open>
  The whole of \<^verbatim>\<open>run\<close>, from the spawning of supervisord on; the two process counts
  are the attributes \<^verbatim>\<open>fetch_proc_count\<close> and \<^verbatim>\<open>run_proc_count\<close>. The preparation
  of the environment variable \<^verbatim>\<open>CMAN_ARGS\<close> makes no call and is left out.
\<close>

definition run :: "int \<Rightarrow> int \<Rightarrow> unit io" where
  "run fetch_proc_count run_proc_count w =
     seq (call (Sleep 1)) (\<lambda>_.
     seq (run_with_rpc fetch_proc_count run_proc_count) (\<lambda>_ w1.
     seq (call ProcWait) (\<lambda>_. ret ()) (emit (LogInfo ''Shutting down...'') w1)))
     (emit Popen w)"

text \<open>How often an operation was called in a history.\<close>

definition calls :: "operation \<Rightarrow> event list \<Rightarrow> nat" where
  "calls p tr = length (filter (\<lambda>ev. case ev of Called q _ \<Rightarrow> q = p | _ \<Rightarrow> False) tr)"

subsection \<open>Histories and scripts of a stage wait\<close>

text \<open>
  The history of the queries of one poll that were answered with the states \<open>ss\<close>, in the
  order of the indices.
\<close>

definition poll_events :: "string \<Rightarrow> nat list \<Rightarrow> string list \<Rightarrow> event list" where
  "poll_events process_name is ss =
     map (\<lambda>(i, s). Called (GetProcessInfo (proc_id process_name i)) (Returns s)) (zip is ss)"

text \<open>
  A round of the loop of \<^verbatim>\<open>wait_for_process\<close> that ends in \<^verbatim>\<open>time.sleep(1)\<close>: either
  every query was answered (\<open>Pending\<close>, with the states), or the query after the answered
  ones raised \<open>OSError\<close> (\<open>Unreachable\<close>). The second component is what the sleep
  returned.
\<close>

datatype round = Pending "string list" string | Unreachable "string list" string

fun round_script :: "round \<Rightarrow> outcome list" where
  "round_script (Pending ss v) = map Returns ss @ [Returns v]"
| "round_script (Unreachable ss v) = map Returns ss @ [Raises OSError, Returns v]"

fun round_events :: "string \<Rightarrow> int \<Rightarrow> round \<Rightarrow> event list" where
  "round_events process_name num_procs (Pending ss v) =
     poll_events process_name (range_py num_procs) ss @ [Called (Sleep 1) (Returns v)]"
| "round_events process_name num_procs (Unreachable ss v) =
     poll_events process_name (range_py num_procs) ss @
     [Called (GetProcessInfo (proc_id process_name (length ss))) (Raises OSError),
      LogWarning, Called (Sleep 1) (Returns v)]"

fun retry_round :: "int \<Rightarrow> string \<Rightarrow> round \<Rightarrow> bool" where
  "retry_round num_procs terminal_state (Pending ss v) =
     (length ss = nat num_procs \<and> \<not> list_ex (\<lambda>state. state = ''FATAL'') ss \<and>
      \<not> list_all (\<lambda>state. state = terminal_state) ss)"
| "retry_round num_procs terminal_state (Unreachable ss v) = (length ss < nat num_procs)"

fun is_Unreachable :: "round \<Rightarrow> bool" where
  "is_Unreachable (Unreachable ss v) = True"
| "is_Unreachable (Pending ss v) = False"

text \<open>The events a stage wait can add to the history.\<close>

fun wait_event :: "string \<Rightarrow> int \<Rightarrow> event \<Rightarrow> bool" where
  "wait_event process_name num_procs (Called (GetProcessInfo p) out) =
     (p \<in> set (map (proc_id process_name) (range_py num_procs)))"
| "wait_event process_name num_procs (Called (Sleep k) out) = (k = 1)"
| "wait_event process_name num_procs (Called p out) = False"
| "wait_event process_name num_procs LogWarning = True"
| "wait_event process_name num_procs (LogInfo msg) =
     (msg = ''waiting for '' @ process_name @ '' to start'')"
| "wait_event process_name num_procs Popen = False"

text \<open>
  Events that command nothing: status queries, sleeps, log lines and the spawning of
  supervisord. The others are the start commands, the shutdown command and the wait for
  supervisord's exit.
\<close>

fun quiet :: "event \<Rightarrow> bool" where
  "quiet (Called (GetProcessInfo p) out) = True"
| "quiet (Called (Sleep k) out) = True"
| "quiet (Called p out) = False"
| "quiet ev = True"

text \<open>
  The order of the stages in a history: each of the two start commands is called at most
  once; the start of \<^verbatim>\<open>run_signals\<close> comes directly after a poll in which every instance
  of \<^verbatim>\<open>fetch_signals\<close> reported \<^verbatim>\<open>EXITED\<close>, with no command before it; the start of the
  autoscaler comes directly after a poll in which every instance of \<^verbatim>\<open>run_signals\<close>
  reported \<^verbatim>\<open>RUNNING\<close>, and that poll comes after the start of \<^verbatim>\<open>run_signals\<close> has
  returned.
\<close>

definition stage_order :: "int \<Rightarrow> int \<Rightarrow> event list \<Rightarrow> bool" where
  "stage_order fetch_proc_count run_proc_count tr \<longleftrightarrow>
     calls (StartProcessGroup ''run_signals'') tr \<le> 1 \<and>
     calls (StartProcess ''autoscaler'') tr \<le> 1 \<and>
     (calls (StartProcessGroup ''run_signals'') tr = 1 \<longrightarrow>
        (\<exists>pre out post.
           tr = pre @ poll_events ''fetch_signals'' (range_py fetch_proc_count)
                        (replicate (nat fetch_proc_count) ''EXITED'') @
                Called (StartProcessGroup ''run_signals'') out # post \<and>
           list_all quiet pre)) \<and>
     (calls (StartProcess ''autoscaler'') tr = 1 \<longrightarrow>
        (\<exists>pre v mid out post.
           tr = pre @ poll_events ''fetch_signals'' (range_py fetch_proc_count)
                        (replicate (nat fetch_proc_count) ''EXITED'') @
                Called (StartProcessGroup ''run_signals'') (Returns v) # mid @
                poll_events ''run_signals'' (range_py run_proc_count)
                  (replicate (nat run_proc_count) ''RUNNING'') @
                Called (StartProcess ''autoscaler'') out # post \<and>
           list_all quiet pre \<and> list_all quiet mid))"

text \<open>
  The last round of a stage wait, the one that ends it, with the result it gives: a poll
  answered by every instance (a fatal state raises, otherwise all states are terminal and
  the wait returns); a query that raises something other than \<open>OSError\<close>; or a round
  to be retried whose sleep raises.
\<close>

definition last_round :: "string \<Rightarrow> int \<Rightarrow> string \<Rightarrow> exn + unit \<Rightarrow> event list \<Rightarrow> bool" where
  "last_round process_name num_procs terminal_state res fin \<longleftrightarrow>
     (\<exists>ss. length ss = nat num_procs \<and>
        fin = poll_events process_name (range_py num_procs) ss \<and>
        (list_ex (\<lambda>state. state = ''FATAL'') ss \<and>
           res = Inl (AutoscalerBootstrapException
                        (''Process '' @ process_name @ '' could not start; aborting'')) \<or>
         \<not> list_ex (\<lambda>state. state = ''FATAL'') ss \<and>
           list_all (\<lambda>state. state = terminal_state) ss \<and> res = Inr ())) \<or>
     (\<exists>ss x. length ss < nat num_procs \<and> x \<noteq> OSError \<and>
        fin = poll_events process_name (range_py num_procs) ss @
              [Called (GetProcessInfo (proc_id process_name (length ss))) (Raises x)] \<and>
        res = Inl (External x)) \<or>
     (\<exists>ss x. length ss = nat num_procs \<and>
        \<not> list_ex (\<lambda>state. state = ''FATAL'') ss \<and>
        \<not> list_all (\<lambda>state. state = terminal_state) ss \<and>
        fin = poll_events process_name (range_py num_procs) ss @
              [Called (Sleep 1) (Raises x)] \<and>
        res = Inl (External x)) \<or>
     (\<exists>ss x. length ss < nat num_procs \<and>
        fin = poll_events process_name (range_py num_procs) ss @
              [Called (GetProcessInfo (proc_id process_name (length ss))) (Raises OSError),
               LogWarning, Called (Sleep 1) (Raises x)] \<and>
        res = Inl (External x))"

text \<open>
  What becomes of the exceptions in a history. A status query of a stage wait that raises
  \<open>OSError\<close> is absorbed: a warning and a sleep of one second follow, and if the sleep
  returns, a status query follows. Any other call that raises is the last event, and its
  exception is the result.
\<close>

fun absorbable :: "operation \<Rightarrow> external \<Rightarrow> bool" where
  "absorbable (GetProcessInfo q) OSError = (q \<noteq> ''autoscaler'')"
| "absorbable p x = False"

fun starts_with_query :: "event list \<Rightarrow> bool" where
  "starts_with_query (Called (GetProcessInfo q) out # tr) = True"
| "starts_with_query tr = False"

fun absorbed :: "event list \<Rightarrow> bool" where
  "absorbed (LogWarning # Called (Sleep k) (Returns v) # tr) = (k = 1 \<and> starts_with_query tr)"
| "absorbed (LogWarning # Called (Sleep k) (Raises x) # tr) = (k = 1)"
| "absorbed tr = False"

fun handled :: "exn + unit \<Rightarrow> event list \<Rightarrow> bool" where
  "handled res [] = True"
| "handled res (Called p (Raises x) # tr) =
     ((if absorbable p x then absorbed tr else tr = [] \<and> res = Inl (External x)) \<and>
      handled res tr)"
| "handled res (ev # tr) = handled res tr"

section \<open>One round of a stage wait\<close>

lemma call_Returns:
  "script w = Returns v # rest \<Longrightarrow>
   call p w = Some (Inr v, w\<lparr>trace := trace w @ [Called p (Returns v)], script := rest\<rparr>)"
  by (simp add: call_def)

lemma call_Raises:
  "script w = Raises e # rest \<Longrightarrow>
   call p w = Some (Inl (External e), w\<lparr>trace := trace w @ [Called p (Raises e)], script := rest\<rparr>)"
  by (simp add: call_def)

lemma call_Inr_trace:
  "call p w = Some (Inr v, w') \<Longrightarrow> trace w' = trace w @ [Called p (Returns v)]"
  by (auto simp: call_def split: list.splits outcome.splits)

lemma call_Inl_trace:
  "call p w = Some (Inl e, w') \<Longrightarrow> \<exists>x. e = External x \<and> trace w' = trace w @ [Called p (Raises x)]"
  by (auto simp: call_def split: list.splits outcome.splits)

lemma call_out:
  "call p w = Some (r, w') \<Longrightarrow>
   \<exists>out. trace w' = trace w @ [Called p out] \<and>
     r = (case out of Returns v \<Rightarrow> Inr v | Raises x \<Rightarrow> Inl (External x))"
  by (auto simp: call_def split: list.splits)

lemma get_states_Returns:
  "script w = map Returns ss @ rest \<Longrightarrow> length ss = length is \<Longrightarrow>
   get_states process_name is w =
     Some (Inr ss, w\<lparr>trace := trace w @ poll_events process_name is ss, script := rest\<rparr>)"
proof (induction "is" arbitrary: w ss)
  case Nil
  then show ?case by (simp add: poll_events_def)
next
  case (Cons i "is")
  then obtain s ss' where ss: "ss = s # ss'" by (cases ss) auto
  let ?w1 = "w\<lparr>trace := trace w @ [Called (GetProcessInfo (proc_id process_name i)) (Returns s)],
                script := map Returns ss' @ rest\<rparr>"
  have c: "call (GetProcessInfo (proc_id process_name i)) w = Some (Inr s, ?w1)"
    using Cons.prems ss by (simp add: call_Returns)
  have "get_states process_name is ?w1 =
     Some (Inr ss', ?w1\<lparr>trace := trace ?w1 @ poll_events process_name is ss', script := rest\<rparr>)"
    using Cons.prems ss by (intro Cons.IH) auto
  with c show ?case by (simp add: ss poll_events_def)
qed

lemma get_states_Raises:
  "script w = map Returns ss @ Raises e # rest \<Longrightarrow> length ss < length is \<Longrightarrow>
   get_states process_name is w =
     Some (Inl (External e),
           w\<lparr>trace := trace w @ poll_events process_name is ss @
                         [Called (GetProcessInfo (proc_id process_name (is ! length ss))) (Raises e)],
             script := rest\<rparr>)"
proof (induction "is" arbitrary: w ss)
  case Nil
  then show ?case by simp
next
  case (Cons i "is")
  show ?case
  proof (cases ss)
    case Nil
    with Cons.prems show ?thesis by (simp add: call_Raises poll_events_def)
  next
    case (Cons s ss')
    let ?w1 = "w\<lparr>trace := trace w @ [Called (GetProcessInfo (proc_id process_name i)) (Returns s)],
                  script := map Returns ss' @ Raises e # rest\<rparr>"
    have c: "call (GetProcessInfo (proc_id process_name i)) w = Some (Inr s, ?w1)"
      using Cons.prems Cons by (simp add: call_Returns)
    have "get_states process_name is ?w1 =
       Some (Inl (External e),
             ?w1\<lparr>trace := trace ?w1 @ poll_events process_name is ss' @
                         [Called (GetProcessInfo (proc_id process_name (is ! length ss'))) (Raises e)],
               script := rest\<rparr>)"
      using Cons.prems Cons by (intro Cons.IH) auto
    with c show ?thesis by (simp add: Cons poll_events_def)
  qed
qed

lemma range_py_length [simp]: "length (range_py n) = nat n"
  by (simp add: range_py_def)

lemma range_py_nth: "k < nat n \<Longrightarrow> range_py n ! k = k"
  by (simp add: range_py_def)

lemma loop_fatal:
  assumes "script w = map Returns ss @ rest" "length ss = nat num_procs"
    and "list_ex (\<lambda>state. state = ''FATAL'') ss"
  shows "wait_for_process_loop process_name num_procs terminal_state w =
     Some (Inl (AutoscalerBootstrapException
                  (''Process '' @ process_name @ '' could not start; aborting'')),
           w\<lparr>trace := trace w @ poll_events process_name (range_py num_procs) ss, script := rest\<rparr>)"
  using assms
  by (subst wait_for_process_loop.simps) (simp add: get_states_Returns)

lemma loop_done:
  assumes "script w = map Returns ss @ rest" "length ss = nat num_procs"
    and "\<not> list_ex (\<lambda>state. state = ''FATAL'') ss"
    and "list_all (\<lambda>state. state = terminal_state) ss"
  shows "wait_for_process_loop process_name num_procs terminal_state w =
     Some (Inr (),
           w\<lparr>trace := trace w @ poll_events process_name (range_py num_procs) ss, script := rest\<rparr>)"
  using assms
  by (subst wait_for_process_loop.simps) (simp add: get_states_Returns)

lemma loop_other_exn:
  assumes "script w = map Returns ss @ Raises e # rest" "length ss < nat num_procs"
    and "e \<noteq> OSError"
  shows "wait_for_process_loop process_name num_procs terminal_state w =
     Some (Inl (External e),
           w\<lparr>trace := trace w @ poll_events process_name (range_py num_procs) ss @
                         [Called (GetProcessInfo (proc_id process_name (length ss))) (Raises e)],
             script := rest\<rparr>)"
  using assms
  by (subst wait_for_process_loop.simps) (simp add: get_states_Raises range_py_nth)

lemma loop_retry:
  assumes "retry_round num_procs terminal_state rd" "script w = round_script rd @ rest"
  shows "wait_for_process_loop process_name num_procs terminal_state w =
     wait_for_process_loop process_name num_procs terminal_state
       (w\<lparr>trace := trace w @ round_events process_name num_procs rd, script := rest\<rparr>)"
proof (cases rd)
  case (Pending ss v)
  with assms show ?thesis
    by (subst wait_for_process_loop.simps)
       (simp add: get_states_Returns [where rest = "Returns v # rest"] call_Returns)
next
  case (Unreachable ss v)
  with assms show ?thesis
    by (subst wait_for_process_loop.simps)
       (simp add: get_states_Raises [where rest = "Returns v # rest"] range_py_nth
          call_Returns emit_def)
qed

lemma loop_retries:
  "list_all (retry_round num_procs terminal_state) rds \<Longrightarrow>
   script w = concat (map round_script rds) @ rest \<Longrightarrow>
   wait_for_process_loop process_name num_procs terminal_state w =
     wait_for_process_loop process_name num_procs terminal_state
       (w\<lparr>trace := trace w @ concat (map (round_events process_name num_procs) rds),
          script := rest\<rparr>)"
proof (induction rds arbitrary: w)
  case Nil
  then show ?case by (cases w) simp
next
  case (Cons rd rds)
  let ?w1 = "w\<lparr>trace := trace w @ round_events process_name num_procs rd,
                script := concat (map round_script rds) @ rest\<rparr>"
  have "wait_for_process_loop process_name num_procs terminal_state w =
        wait_for_process_loop process_name num_procs terminal_state ?w1"
    using Cons.prems by (intro loop_retry) auto
  also have "\<dots> = wait_for_process_loop process_name num_procs terminal_state
       (?w1\<lparr>trace := trace ?w1 @ concat (map (round_events process_name num_procs) rds),
          script := rest\<rparr>)"
    using Cons.prems by (intro Cons.IH) auto
  finally show ?case by simp
qed

section \<open>What a successful stage wait has seen\<close>

lemma call_trace:
  "call p w = Some (r, w') \<Longrightarrow> \<exists>out. trace w' = trace w @ [Called p out]"
  by (auto simp: call_def split: list.splits)

lemma get_states_Inr:
  "get_states process_name is w = Some (Inr ss, w') \<Longrightarrow>
   trace w' = trace w @ poll_events process_name is ss \<and> length ss = length is"
proof (induction "is" arbitrary: w ss)
  case Nil
  then show ?case by (simp add: poll_events_def)
next
  case (Cons i "is")
  from Cons.prems obtain s w1 ss' where
    c: "call (GetProcessInfo (proc_id process_name i)) w = Some (Inr s, w1)"
    and g: "get_states process_name is w1 = Some (Inr ss', w')" and ss: "ss = s # ss'"
    by (auto split: option.splits sum.splits prod.splits)
  from c have "trace w1 = trace w @ [Called (GetProcessInfo (proc_id process_name i)) (Returns s)]"
    by (auto simp: call_def split: list.splits outcome.splits)
  with Cons.IH [OF g] ss show ?case by (simp add: poll_events_def)
qed

lemma all_terminal_replicate:
  "list_all (\<lambda>state. state = terminal_state) ss \<Longrightarrow> ss = replicate (length ss) terminal_state"
  by (induction ss) auto

lemma get_states_trace:
  "get_states process_name is w = Some (r, w') \<Longrightarrow>
   \<exists>tr. trace w' = trace w @ tr"
proof (induction "is" arbitrary: w r)
  case Nil
  then show ?case by simp
next
  case (Cons i "is")
  then show ?case
    by (fastforce split: option.splits sum.splits prod.splits dest!: call_trace)
qed

lemma loop_success_last_poll:
  "wait_for_process_loop process_name num_procs terminal_state w = Some (Inr (), w') \<Longrightarrow>
   \<exists>tr. trace w' = trace w @ tr @
          poll_events process_name (range_py num_procs) (replicate (nat num_procs) terminal_state)"
proof (induction process_name num_procs terminal_state w rule: wait_for_process_loop.induct)
  case (1 process_name num_procs terminal_state w)
  from "1.prems" obtain r w1 where gs: "get_states process_name (range_py num_procs) w = Some (r, w1)"
    by (subst (asm) wait_for_process_loop.simps) (auto split: option.splits)
  show ?case
  proof (cases r)
    case (Inl e)
    with "1.prems" gs obtain v w2 where e: "e = External OSError"
      and c: "call (Sleep 1) (emit LogWarning w1) = Some (Inr v, w2)"
      and l: "wait_for_process_loop process_name num_procs terminal_state w2 = Some (Inr (), w')"
      by (subst (asm) wait_for_process_loop.simps)
         (auto split: option.splits sum.splits prod.splits if_splits)
    from "1.IH"(1) [OF gs refl Inl e c refl refl l] obtain tr where
      "trace w' = trace w2 @ tr @
          poll_events process_name (range_py num_procs) (replicate (nat num_procs) terminal_state)"
      by blast
    moreover from call_trace [OF c] obtain out where "trace w2 = trace w1 @ [LogWarning, Called (Sleep 1) out]"
      by (auto simp: emit_def)
    moreover from get_states_trace [OF gs] obtain tr0 where "trace w1 = trace w @ tr0" by blast
    ultimately show ?thesis by simp
  next
    case (Inr ss)
    note tr1 = get_states_Inr [OF gs [unfolded Inr]]
    show ?thesis
    proof (cases "list_all (\<lambda>state. state = terminal_state) ss")
      case True
      with "1.prems" gs Inr have "w' = w1"
        by (subst (asm) wait_for_process_loop.simps) (auto split: if_splits)
      moreover from True tr1 have "ss = replicate (nat num_procs) terminal_state"
        using all_terminal_replicate [of terminal_state ss] by simp
      ultimately show ?thesis using tr1 by (intro exI [of _ "[]"]) simp
    next
      case False
      with "1.prems" gs Inr obtain v w2 where nf: "\<not> list_ex (\<lambda>state. state = ''FATAL'') ss"
        and c: "call (Sleep 1) w1 = Some (Inr v, w2)"
        and l: "wait_for_process_loop process_name num_procs terminal_state w2 = Some (Inr (), w')"
        by (subst (asm) wait_for_process_loop.simps)
           (auto split: option.splits sum.splits prod.splits if_splits)
      from "1.IH"(2) [OF gs refl Inr nf False c refl refl l] obtain tr where
        "trace w' = trace w2 @ tr @
            poll_events process_name (range_py num_procs) (replicate (nat num_procs) terminal_state)"
        by blast
      moreover from call_trace [OF c] obtain out where "trace w2 = trace w1 @ [Called (Sleep 1) out]"
        by auto
      ultimately show ?thesis using tr1 by simp
    qed
  qed
qed

section \<open>Counting calls; retries before the deciding poll\<close>

lemma calls_Nil [simp]: "calls p [] = 0"
  by (simp add: calls_def)

lemma calls_append [simp]: "calls p (tr @ tr') = calls p tr + calls p tr'"
  by (simp add: calls_def)

lemma calls_Cons_Called [simp]:
  "calls p (Called q out # tr) = (if q = p then 1 else 0) + calls p tr"
  by (simp add: calls_def)

lemma calls_Cons_other [simp]:
  "calls p (Popen # tr) = calls p tr" "calls p (LogInfo msg # tr) = calls p tr"
  "calls p (LogWarning # tr) = calls p tr"
  by (simp_all add: calls_def)

lemma calls_poll_events:
  "(\<And>q. p \<noteq> GetProcessInfo q) \<Longrightarrow> calls p (poll_events process_name is ss) = 0"
  by (induction "is" arbitrary: ss; case_tac ss) (auto simp: poll_events_def)

lemma count_poll_events [simp]: "count_list (poll_events process_name is ss) LogWarning = 0"
  by (induction "is" arbitrary: ss; case_tac ss) (auto simp: poll_events_def)

lemma sleeps_of_rounds:
  "calls (Sleep 1) (concat (map (round_events process_name num_procs) rds)) = length rds"
proof (induction rds)
  case Nil
  then show ?case by simp
next
  case (Cons rd rds)
  then show ?case by (cases rd) (simp_all add: calls_poll_events)
qed

lemma count_list_append [simp]: "count_list (xs @ ys) x = count_list xs x + count_list ys x"
  by (induction xs) auto

lemma warnings_of_rounds:
  "list_all is_Unreachable rds \<Longrightarrow>
   count_list (concat (map (round_events process_name num_procs) rds)) LogWarning = length rds"
proof (induction rds)
  case Nil
  then show ?case by simp
next
  case (Cons rd rds)
  then show ?case by (cases rd) simp_all
qed

lemma no_fatal_replicate:
  "terminal_state \<noteq> ''FATAL'' \<Longrightarrow>
   \<not> list_ex (\<lambda>state. state = ''FATAL'') (replicate k terminal_state)"
  by (induction k) auto

lemma all_replicate: "list_all (\<lambda>state. state = terminal_state) (replicate k terminal_state)"
  by (induction k) auto

lemma wait_for_process_after_retries:
  assumes "list_all (retry_round num_procs terminal_state) rds"
    and "script w = concat (map round_script rds) @ rest"
  shows "wait_for_process process_name num_procs terminal_state w =
     wait_for_process_loop process_name num_procs terminal_state
       (w\<lparr>trace := trace w @ LogInfo (''waiting for '' @ process_name @ '' to start'') #
                       concat (map (round_events process_name num_procs) rds),
          script := rest\<rparr>)"
  unfolding wait_for_process_def
  using assms
  by (subst loop_retries [where rds = rds and rest = rest]) (simp_all add: emit_def)

section \<open>The shape of a stage wait's history\<close>

lemma loop_step_cases:
  assumes "wait_for_process_loop process_name num_procs terminal_state w = Some (res, w')"
  obtains
    (stop) r where "get_states process_name (range_py num_procs) w = Some (r, w')"
      and "res \<noteq> Inl (External OSError)"
  | (sleep_raises) r w1 e where "get_states process_name (range_py num_procs) w = Some (r, w1)"
      and "call (Sleep 1) (if r = Inl (External OSError) then emit LogWarning w1 else w1) =
             Some (Inl e, w')"
      and "res = Inl e"
  | (retry_unreachable) w1 v w2 where
      "get_states process_name (range_py num_procs) w = Some (Inl (External OSError), w1)"
      and "call (Sleep 1) (emit LogWarning w1) = Some (Inr v, w2)"
      and "wait_for_process_loop process_name num_procs terminal_state w2 = Some (res, w')"
  | (retry_pending) ss w1 v w2 where
      "get_states process_name (range_py num_procs) w = Some (Inr ss, w1)"
      and "\<not> list_ex (\<lambda>state. state = ''FATAL'') ss"
      and "\<not> list_all (\<lambda>state. state = terminal_state) ss"
      and "call (Sleep 1) w1 = Some (Inr v, w2)"
      and "wait_for_process_loop process_name num_procs terminal_state w2 = Some (res, w')"
  using assms
  by (subst (asm) wait_for_process_loop.simps)
     (auto split: option.splits sum.splits prod.splits if_splits)

lemma get_states_queries:
  "get_states process_name is w = Some (r, w') \<Longrightarrow>
   \<exists>outs. length outs \<le> length is \<and>
     trace w' = trace w @
       map (\<lambda>(i, out). Called (GetProcessInfo (proc_id process_name i)) out) (zip is outs) \<and>
     (\<forall>ss. r = Inr ss \<longrightarrow> length outs = length is)"
proof (induction "is" arbitrary: w r)
  case Nil
  then show ?case by simp
next
  case (Cons i "is")
  from Cons.prems obtain r1 w1 where
    c: "call (GetProcessInfo (proc_id process_name i)) w = Some (r1, w1)"
    by (auto split: option.splits)
  then obtain out where
    t1: "trace w1 = trace w @ [Called (GetProcessInfo (proc_id process_name i)) out]"
    by (auto dest: call_trace)
  show ?case
  proof (cases r1)
    case (Inl e)
    with Cons.prems c have "w' = w1" "r = Inl e" by auto
    with t1 show ?thesis by (intro exI [of _ "[out]"]) simp
  next
    case (Inr s)
    with Cons.prems c obtain r2 where g: "get_states process_name is w1 = Some (r2, w')"
      and r: "\<forall>ss. r = Inr ss \<longrightarrow> (\<exists>ss'. r2 = Inr ss')"
      by (auto split: option.splits sum.splits prod.splits)
    from Cons.IH [OF g] obtain outs where "length outs \<le> length is"
      "trace w' = trace w1 @
         map (\<lambda>(i, out). Called (GetProcessInfo (proc_id process_name i)) out) (zip is outs)"
      "\<forall>ss. r2 = Inr ss \<longrightarrow> length outs = length is"
      by blast
    with t1 r show ?thesis by (intro exI [of _ "out # outs"]) auto
  qed
qed

lemma get_states_events:
  assumes "get_states process_name (range_py num_procs) w = Some (r, w')"
  shows "\<exists>tr. trace w' = trace w @ tr \<and> list_all (wait_event process_name num_procs) tr"
proof -
  from get_states_queries [OF assms] obtain outs where
    t: "trace w' = trace w @
       map (\<lambda>(i, out). Called (GetProcessInfo (proc_id process_name i)) out)
         (zip (range_py num_procs) outs)"
    by blast
  have "list_all (wait_event process_name num_procs)
     (map (\<lambda>(i, out). Called (GetProcessInfo (proc_id process_name i)) out)
         (zip (range_py num_procs) outs))"
    by (auto simp: list_all_iff dest: set_zip_leftD)
  with t show ?thesis by blast
qed

lemma call_Sleep_events:
  assumes "call (Sleep 1) w = Some (r, w')"
  shows "\<exists>tr. trace w' = trace w @ tr \<and> list_all (wait_event process_name num_procs) tr"
proof -
  from call_trace [OF assms] obtain out where "trace w' = trace w @ [Called (Sleep 1) out]"
    by blast
  then show ?thesis by simp
qed

lemma loop_events:
  "wait_for_process_loop process_name num_procs terminal_state w = Some (res, w') \<Longrightarrow>
   \<exists>tr. trace w' = trace w @ tr \<and> list_all (wait_event process_name num_procs) tr"
proof (induction process_name num_procs terminal_state w rule: wait_for_process_loop.induct)
  case (1 process_name num_procs terminal_state w)
  from "1.prems" show ?case
  proof (cases rule: loop_step_cases)
    case (stop r)
    then show ?thesis by (blast dest: get_states_events)
  next
    case (sleep_raises r w1 e)
    from get_states_events [OF sleep_raises(1)] obtain tr1 where
      "trace w1 = trace w @ tr1" "list_all (wait_event process_name num_procs) tr1"
      by blast
    moreover from call_Sleep_events [OF sleep_raises(2), of process_name num_procs]
    obtain tr2 where "trace w' = trace w1 @ LogWarning # tr2 \<or> trace w' = trace w1 @ tr2"
      "list_all (wait_event process_name num_procs) tr2"
      by (auto simp: emit_def split: if_splits)
    ultimately show ?thesis by auto
  next
    case (retry_unreachable w1 v w2)
    from get_states_events [OF retry_unreachable(1)] obtain tr1 where
      "trace w1 = trace w @ tr1" "list_all (wait_event process_name num_procs) tr1"
      by blast
    moreover from call_Sleep_events [OF retry_unreachable(2), of process_name num_procs]
    obtain tr2 where "trace w2 = trace w1 @ LogWarning # tr2"
      "list_all (wait_event process_name num_procs) tr2"
      by (auto simp: emit_def)
    moreover from "1.IH"(1) [OF retry_unreachable(1) refl refl refl retry_unreachable(2) refl refl
        retry_unreachable(3)]
    obtain tr3 where "trace w' = trace w2 @ tr3"
      "list_all (wait_event process_name num_procs) tr3"
      by blast
    ultimately show ?thesis by auto
  next
    case (retry_pending ss w1 v w2)
    from get_states_events [OF retry_pending(1)] obtain tr1 where
      "trace w1 = trace w @ tr1" "list_all (wait_event process_name num_procs) tr1"
      by blast
    moreover from call_Sleep_events [OF retry_pending(4), of process_name num_procs]
    obtain tr2 where "trace w2 = trace w1 @ tr2"
      "list_all (wait_event process_name num_procs) tr2"
      by auto
    moreover from "1.IH"(2) [OF retry_pending(1) refl refl retry_pending(2,3,4) refl refl
        retry_pending(5)]
    obtain tr3 where "trace w' = trace w2 @ tr3"
      "list_all (wait_event process_name num_procs) tr3"
      by blast
    ultimately show ?thesis by auto
  qed
qed

lemma wait_for_process_events:
  assumes "wait_for_process process_name num_procs terminal_state w = Some (res, w')"
  shows "\<exists>tr. trace w' = trace w @ tr \<and> list_all (wait_event process_name num_procs) tr"
proof -
  from loop_events [OF assms [unfolded wait_for_process_def]] obtain tr where
    "trace w' = trace w @ LogInfo (''waiting for '' @ process_name @ '' to start'') # tr"
    "list_all (wait_event process_name num_procs) tr"
    by (auto simp: emit_def)
  then show ?thesis by simp
qed

section \<open>The whole history of a stage wait\<close>

lemma get_states_shape:
  "get_states process_name is w = Some (r, w') \<Longrightarrow>
   (\<exists>ss. r = Inr ss \<and> length ss = length is \<and>
      trace w' = trace w @ poll_events process_name is ss) \<or>
   (\<exists>ss x. r = Inl (External x) \<and> length ss < length is \<and>
      trace w' = trace w @ poll_events process_name is ss @
                 [Called (GetProcessInfo (proc_id process_name (is ! length ss))) (Raises x)])"
proof (induction "is" arbitrary: w r)
  case Nil
  then show ?case by (simp add: poll_events_def)
next
  case (Cons i "is")
  from Cons.prems obtain r1 w1 where
    c: "call (GetProcessInfo (proc_id process_name i)) w = Some (r1, w1)"
    by (auto split: option.splits)
  show ?case
  proof (cases r1)
    case (Inl e)
    with Cons.prems c have w': "w' = w1" and r: "r = Inl e" by auto
    from call_Inl_trace [OF c [unfolded Inl]] obtain x where
      "e = External x"
      "trace w1 = trace w @ [Called (GetProcessInfo (proc_id process_name i)) (Raises x)]"
      by blast
    with w' r have "r = Inl (External x) \<and> length ([]::string list) < length (i # is) \<and>
      trace w' = trace w @ poll_events process_name (i # is) [] @
                 [Called (GetProcessInfo (proc_id process_name ((i # is) ! length ([]::string list))))
                    (Raises x)]"
      by (simp add: poll_events_def)
    then show ?thesis by blast
  next
    case (Inr s)
    from call_Inr_trace [OF c [unfolded Inr]]
    have t1: "trace w1 = trace w @ [Called (GetProcessInfo (proc_id process_name i)) (Returns s)]" .
    from Cons.prems c Inr obtain r2 where g: "get_states process_name is w1 = Some (r2, w')"
      and r: "r = (case r2 of Inl e \<Rightarrow> Inl e | Inr ss \<Rightarrow> Inr (s # ss))"
      by (auto split: option.splits sum.splits prod.splits)
    from Cons.IH [OF g] show ?thesis
    proof
      assume "\<exists>ss. r2 = Inr ss \<and> length ss = length is \<and>
         trace w' = trace w1 @ poll_events process_name is ss"
      then obtain ss where "r2 = Inr ss" "length ss = length is"
        "trace w' = trace w1 @ poll_events process_name is ss" by blast
      with t1 r have "r = Inr (s # ss) \<and> length (s # ss) = length (i # is) \<and>
         trace w' = trace w @ poll_events process_name (i # is) (s # ss)"
        by (simp add: poll_events_def)
      then show ?thesis by blast
    next
      assume "\<exists>ss x. r2 = Inl (External x) \<and> length ss < length is \<and>
        trace w' = trace w1 @ poll_events process_name is ss @
                 [Called (GetProcessInfo (proc_id process_name (is ! length ss))) (Raises x)]"
      then obtain ss x where "r2 = Inl (External x)" "length ss < length is"
        "trace w' = trace w1 @ poll_events process_name is ss @
                 [Called (GetProcessInfo (proc_id process_name (is ! length ss))) (Raises x)]"
        by blast
      with t1 r have "r = Inl (External x) \<and> length (s # ss) < length (i # is) \<and>
        trace w' = trace w @ poll_events process_name (i # is) (s # ss) @
           [Called (GetProcessInfo (proc_id process_name ((i # is) ! length (s # ss)))) (Raises x)]"
        by (simp add: poll_events_def)
      then show ?thesis by blast
    qed
  qed
qed

lemma poll_shape:
  assumes "get_states process_name (range_py num_procs) w = Some (r, w')"
  obtains (answered) ss where "r = Inr ss" and "length ss = nat num_procs"
      and "trace w' = trace w @ poll_events process_name (range_py num_procs) ss"
  | (cut_short) ss x where "r = Inl (External x)" and "length ss < nat num_procs"
      and "trace w' = trace w @ poll_events process_name (range_py num_procs) ss @
             [Called (GetProcessInfo (proc_id process_name (length ss))) (Raises x)]"
  using get_states_shape [OF assms] by (auto simp: range_py_nth)

lemma loop_outcomes:
  assumes "wait_for_process_loop process_name num_procs terminal_state w = Some (res, w')"
  obtains
    (fatal) ss where "get_states process_name (range_py num_procs) w = Some (Inr ss, w')"
      and "list_ex (\<lambda>state. state = ''FATAL'') ss"
      and "res = Inl (AutoscalerBootstrapException
                        (''Process '' @ process_name @ '' could not start; aborting''))"
  | (terminal) ss where "get_states process_name (range_py num_procs) w = Some (Inr ss, w')"
      and "\<not> list_ex (\<lambda>state. state = ''FATAL'') ss"
      and "list_all (\<lambda>state. state = terminal_state) ss" and "res = Inr ()"
  | (raised) e where "get_states process_name (range_py num_procs) w = Some (Inl e, w')"
      and "e \<noteq> External OSError" and "res = Inl e"
  | (pending_sleep_raised) ss w1 e where
      "get_states process_name (range_py num_procs) w = Some (Inr ss, w1)"
      and "\<not> list_ex (\<lambda>state. state = ''FATAL'') ss"
      and "\<not> list_all (\<lambda>state. state = terminal_state) ss"
      and "call (Sleep 1) w1 = Some (Inl e, w')" and "res = Inl e"
  | (unreachable_sleep_raised) w1 e where
      "get_states process_name (range_py num_procs) w = Some (Inl (External OSError), w1)"
      and "call (Sleep 1) (emit LogWarning w1) = Some (Inl e, w')" and "res = Inl e"
  | (retry_unreachable) w1 v w2 where
      "get_states process_name (range_py num_procs) w = Some (Inl (External OSError), w1)"
      and "call (Sleep 1) (emit LogWarning w1) = Some (Inr v, w2)"
      and "wait_for_process_loop process_name num_procs terminal_state w2 = Some (res, w')"
  | (retry_pending) ss w1 v w2 where
      "get_states process_name (range_py num_procs) w = Some (Inr ss, w1)"
      and "\<not> list_ex (\<lambda>state. state = ''FATAL'') ss"
      and "\<not> list_all (\<lambda>state. state = terminal_state) ss"
      and "call (Sleep 1) w1 = Some (Inr v, w2)"
      and "wait_for_process_loop process_name num_procs terminal_state w2 = Some (res, w')"
  using assms
  by (subst (asm) wait_for_process_loop.simps)
     (auto split: option.splits sum.splits prod.splits if_splits)

lemma poll_answered:
  assumes "get_states process_name (range_py num_procs) w = Some (Inr ss, w')"
  shows "length ss = nat num_procs"
    and "trace w' = trace w @ poll_events process_name (range_py num_procs) ss"
  using get_states_Inr [OF assms] by simp_all

lemma poll_cut_short:
  assumes "get_states process_name (range_py num_procs) w = Some (Inl e, w')"
  obtains ss x where "e = External x" and "length ss < nat num_procs"
    and "trace w' = trace w @ poll_events process_name (range_py num_procs) ss @
           [Called (GetProcessInfo (proc_id process_name (length ss))) (Raises x)]"
  using assms by (cases rule: poll_shape) auto

lemma loop_history:
  "wait_for_process_loop process_name num_procs terminal_state w = Some (res, w') \<Longrightarrow>
   \<exists>rds fin. list_all (retry_round num_procs terminal_state) rds \<and>
     trace w' = trace w @ concat (map (round_events process_name num_procs) rds) @ fin \<and>
     last_round process_name num_procs terminal_state res fin"
proof (induction process_name num_procs terminal_state w rule: wait_for_process_loop.induct)
  case (1 process_name num_procs terminal_state w)
  let ?P = "\<lambda>rds fin. list_all (retry_round num_procs terminal_state) rds \<and>
     trace w' = trace w @ concat (map (round_events process_name num_procs) rds) @ fin \<and>
     last_round process_name num_procs terminal_state res fin"
  from "1.prems" show ?case
  proof (cases rule: loop_outcomes)
    case (fatal ss)
    from poll_answered [OF fatal(1)] fatal(2,3)
    have "?P [] (poll_events process_name (range_py num_procs) ss)"
      unfolding last_round_def by auto
    then show ?thesis by blast
  next
    case (terminal ss)
    from poll_answered [OF terminal(1)] terminal(2,3,4)
    have "?P [] (poll_events process_name (range_py num_procs) ss)"
      unfolding last_round_def by auto
    then show ?thesis by blast
  next
    case (raised e)
    from raised(1) obtain ss x where x: "e = External x" "length ss < nat num_procs"
      "trace w' = trace w @ poll_events process_name (range_py num_procs) ss @
           [Called (GetProcessInfo (proc_id process_name (length ss))) (Raises x)]"
      by (rule poll_cut_short)
    with raised(2,3)
    have "?P [] (poll_events process_name (range_py num_procs) ss @
           [Called (GetProcessInfo (proc_id process_name (length ss))) (Raises x)])"
      unfolding last_round_def by auto
    then show ?thesis by blast
  next
    case (pending_sleep_raised ss w1 e)
    from call_Inl_trace [OF pending_sleep_raised(4)] obtain x where
      x: "e = External x" "trace w' = trace w1 @ [Called (Sleep 1) (Raises x)]"
      by blast
    with poll_answered [OF pending_sleep_raised(1)] pending_sleep_raised(2,3,5)
    have "?P [] (poll_events process_name (range_py num_procs) ss @
           [Called (Sleep 1) (Raises x)])"
      unfolding last_round_def by auto
    then show ?thesis by blast
  next
    case (unreachable_sleep_raised w1 e)
    from unreachable_sleep_raised(1) obtain ss where ss: "length ss < nat num_procs"
      "trace w1 = trace w @ poll_events process_name (range_py num_procs) ss @
           [Called (GetProcessInfo (proc_id process_name (length ss))) (Raises OSError)]"
      by (rule poll_cut_short) auto
    from call_Inl_trace [OF unreachable_sleep_raised(2)] obtain x where
      x: "e = External x" "trace w' = trace w1 @ [LogWarning, Called (Sleep 1) (Raises x)]"
      by (auto simp: emit_def)
    with ss unreachable_sleep_raised(3)
    have "?P [] (poll_events process_name (range_py num_procs) ss @
           [Called (GetProcessInfo (proc_id process_name (length ss))) (Raises OSError),
            LogWarning, Called (Sleep 1) (Raises x)])"
      unfolding last_round_def by auto
    then show ?thesis by blast
  next
    case (retry_unreachable w1 v w2)
    from retry_unreachable(1) obtain ss where ss: "length ss < nat num_procs"
      "trace w1 = trace w @ poll_events process_name (range_py num_procs) ss @
           [Called (GetProcessInfo (proc_id process_name (length ss))) (Raises OSError)]"
      by (rule poll_cut_short) auto
    from call_Inr_trace [OF retry_unreachable(2)]
    have t2: "trace w2 = trace w1 @ [LogWarning, Called (Sleep 1) (Returns v)]"
      by (simp add: emit_def)
    from "1.IH"(1) [OF retry_unreachable(1) refl refl refl retry_unreachable(2) refl refl
        retry_unreachable(3)]
    obtain rds fin where r: "list_all (retry_round num_procs terminal_state) rds"
      "trace w' = trace w2 @ concat (map (round_events process_name num_procs) rds) @ fin"
      "last_round process_name num_procs terminal_state res fin"
      by blast
    from ss t2 r have "?P (Unreachable ss v # rds) fin" by simp
    then show ?thesis by blast
  next
    case (retry_pending ss w1 v w2)
    note p = poll_answered [OF retry_pending(1)]
    from call_Inr_trace [OF retry_pending(4)]
    have t2: "trace w2 = trace w1 @ [Called (Sleep 1) (Returns v)]" .
    from "1.IH"(2) [OF retry_pending(1) refl refl retry_pending(2,3,4) refl refl
        retry_pending(5)]
    obtain rds fin where r: "list_all (retry_round num_procs terminal_state) rds"
      "trace w' = trace w2 @ concat (map (round_events process_name num_procs) rds) @ fin"
      "last_round process_name num_procs terminal_state res fin"
      by blast
    from p t2 r retry_pending(2,3) have "?P (Pending ss v # rds) fin" by simp
    then show ?thesis by blast
  qed
qed

lemma wait_for_process_history:
  assumes "wait_for_process process_name num_procs terminal_state w = Some (res, w')"
  shows "\<exists>rds fin. list_all (retry_round num_procs terminal_state) rds \<and>
     trace w' = trace w @ LogInfo (''waiting for '' @ process_name @ '' to start'') #
                concat (map (round_events process_name num_procs) rds) @ fin \<and>
     last_round process_name num_procs terminal_state res fin"
  using loop_history [OF assms [unfolded wait_for_process_def]]
  by (simp add: emit_def)

subsection \<open>Exceptions in the history of a stage wait\<close>

lemma handled_tail: "handled res (ev # tr) \<Longrightarrow> handled res tr"
  by (cases "(res, ev # tr)" rule: handled.cases) auto

lemma handled_suffix: "handled res (pre @ tr) \<Longrightarrow> handled res tr"
  by (induction pre) (auto dest: handled_tail)

lemma handled_at:
  assumes "handled res (pre @ Called p (Raises x) # post)"
  shows "if absorbable p x then absorbed post else post = [] \<and> res = Inl (External x)"
  using handled_suffix [OF assms] by simp

lemma starts_with_queryD:
  "starts_with_query tr \<Longrightarrow> \<exists>q out post. tr = Called (GetProcessInfo q) out # post"
  by (cases tr rule: starts_with_query.cases) auto

lemma absorbedD:
  "absorbed tr \<Longrightarrow>
   \<exists>out post. tr = LogWarning # Called (Sleep 1) out # post \<and>
     (\<forall>v. out = Returns v \<longrightarrow> starts_with_query post)"
  by (cases tr rule: absorbed.cases) auto

lemma starts_with_query_append: "starts_with_query tr \<Longrightarrow> starts_with_query (tr @ tr')"
  by (cases tr rule: starts_with_query.cases) auto

lemma absorbed_append: "absorbed tr \<Longrightarrow> absorbed (tr @ tr')"
  by (cases tr rule: absorbed.cases) (auto simp: starts_with_query_append)

lemma handled_append:
  "handled (Inr ()) tr \<Longrightarrow> handled res tr' \<Longrightarrow> handled res (tr @ tr')"
proof (induction tr)
  case Nil
  then show ?case by simp
next
  case (Cons ev tr)
  from Cons.prems(1) have "handled (Inr ()) tr" by (rule handled_tail)
  with Cons have IH: "handled res (tr @ tr')" by simp
  show ?case
  proof (cases ev)
    case (Called p out)
    show ?thesis
    proof (cases out)
      case (Returns v)
      with Called IH show ?thesis by (cases p) simp_all
    next
      case (Raises x)
      with Called Cons.prems(1) have "absorbable p x" "absorbed tr"
        by (auto split: if_splits)
      with Called Raises IH show ?thesis by (simp add: absorbed_append)
    qed
  qed (use IH in simp_all)
qed

lemma handled_Returns: "handled res (Called p (Returns v) # tr) = handled res tr"
  by (cases p) simp_all

lemma handled_poll_events:
  "handled res (poll_events process_name is ss @ tr) = handled res tr"
  by (induction "is" arbitrary: ss; case_tac ss) (auto simp: poll_events_def)

lemma proc_id_not_autoscaler: "proc_id process_name i \<noteq> ''autoscaler''"
proof
  assume "proc_id process_name i = ''autoscaler''"
  then have "set (proc_id process_name i) = set ''autoscaler''" by simp
  moreover have "CHR '':'' \<in> set (proc_id process_name i)" by (simp add: proc_id_def)
  ultimately show False by simp
qed

lemma starts_with_query_poll:
  assumes "0 < nat num_procs" and "ss \<noteq> [] \<or> starts_with_query tr"
  shows "starts_with_query (poll_events process_name (range_py num_procs) ss @ tr)"
proof -
  from assms(1) obtain js where "range_py num_procs = 0 # js"
    by (auto simp: range_py_def upt_conv_Cons)
  with assms(2) show ?thesis
    by (cases ss) (auto simp: poll_events_def)
qed

lemma absorbable_iff:
  "absorbable p x \<longleftrightarrow> x = OSError \<and> (\<exists>q. p = GetProcessInfo q \<and> q \<noteq> ''autoscaler'')"
  by (cases "(p, x)" rule: absorbable.cases) auto

lemma last_round_handled:
  assumes "last_round process_name num_procs terminal_state res fin"
  shows "handled res fin" and "0 < nat num_procs \<Longrightarrow> starts_with_query fin"
proof -
  show "handled res fin"
    using assms unfolding last_round_def
    by (auto simp: handled_poll_events handled_poll_events [where tr = "[]", simplified]
          proc_id_not_autoscaler absorbable_iff)
  show "starts_with_query fin" if "0 < nat num_procs"
    using assms that unfolding last_round_def
    by (auto intro!: starts_with_query_poll
          starts_with_query_poll [where tr = "[]", simplified])
qed

lemma round_handled:
  assumes "retry_round num_procs terminal_state rd" and "handled res tr"
    and "0 < nat num_procs \<Longrightarrow> starts_with_query tr"
  shows "handled res (round_events process_name num_procs rd @ tr)"
    and "0 < nat num_procs \<Longrightarrow> starts_with_query (round_events process_name num_procs rd @ tr)"
proof -
  show "handled res (round_events process_name num_procs rd @ tr)"
    using assms
    by (cases rd) (auto simp: handled_poll_events proc_id_not_autoscaler)
  show "starts_with_query (round_events process_name num_procs rd @ tr)" if "0 < nat num_procs"
    using assms(1) that
    by (cases rd) (auto intro!: starts_with_query_poll)
qed

lemma rounds_handled:
  assumes "list_all (retry_round num_procs terminal_state) rds" and "handled res fin"
    and "0 < nat num_procs \<Longrightarrow> starts_with_query fin"
  shows "handled res (concat (map (round_events process_name num_procs) rds) @ fin) \<and>
     (0 < nat num_procs \<longrightarrow>
        starts_with_query (concat (map (round_events process_name num_procs) rds) @ fin))"
  using assms(1)
proof (induction rds)
  case Nil
  with assms(2,3) show ?case by simp
next
  case (Cons rd rds)
  then have rd: "retry_round num_procs terminal_state rd"
    and IH: "handled res (concat (map (round_events process_name num_procs) rds) @ fin)"
      "0 < nat num_procs \<Longrightarrow>
        starts_with_query (concat (map (round_events process_name num_procs) rds) @ fin)"
    by simp_all
  from round_handled [OF rd IH] show ?case by simp
qed

lemma wait_for_process_handled:
  assumes "wait_for_process process_name num_procs terminal_state w = Some (res, w')"
  shows "\<exists>tr. trace w' = trace w @ tr \<and> handled res tr"
proof -
  from wait_for_process_history [OF assms] obtain rds fin where
    h: "list_all (retry_round num_procs terminal_state) rds"
      "trace w' = trace w @ LogInfo (''waiting for '' @ process_name @ '' to start'') #
                concat (map (round_events process_name num_procs) rds) @ fin"
      "last_round process_name num_procs terminal_state res fin"
    by blast
  from rounds_handled [OF h(1) last_round_handled [OF h(3)]]
  have "handled res (LogInfo (''waiting for '' @ process_name @ '' to start'') #
                concat (map (round_events process_name num_procs) rds) @ fin)"
    by simp
  with h(2) show ?thesis by blast
qed

section \<open>Properties of the stage wait\<close>

text \<open>The definitions that evaluate the model on a given script.\<close>

lemmas run_eval =
  run_def seq_def ret_def call_def emit_def run_with_rpc_def run_try_def
  wait_for_process_def wait_for_process_loop.simps steady_state_loop.simps
  read_running_def range_py_def proc_id_def str.simps SUPERVISORD_RUNNING_STATES_def
  upt_rec eval_nat_numeral

text \<open>
  C9: called with \<^verbatim>\<open>num_procs\<close> equal to zero, \<^verbatim>\<open>wait_for_process\<close> returns successfully
  in its first iteration, without any status query and without sleeping: the list of
  states is empty, so no state is fatal and all of them are terminal. Only the log line
  is added to the history, and nothing of the script is used (the script may even be
  empty).
\<close>

theorem wait_for_process_zero:
  "wait_for_process process_name 0 terminal_state w =
     Some (Inr (), emit (LogInfo (''waiting for '' @ process_name @ '' to start'')) w)"
  unfolding wait_for_process_def
  by (subst wait_for_process_loop.simps) (simp add: range_py_def)

theorem wait_for_process_zero_witness:
  "wait_for_process ''fetch_signals'' 0 ''EXITED'' \<lparr>trace = [], script = [], running = []\<rparr> =
     Some (Inr (), \<lparr>trace = [LogInfo ''waiting for fetch_signals to start''],
                     script = [], running = []\<rparr>)"
  using wait_for_process_zero [of "''fetch_signals''" "''EXITED''"
      "\<lparr>trace = [], script = [], running = []\<rparr>"]
  by (simp add: emit_def)

text \<open>
  C3, as stated, fails when the poll that holds the fatal report is cut short: instance 0
  of \<^verbatim>\<open>run_signals\<close> reports \<^verbatim>\<open>FATAL\<close> and the query for instance 1, in the same poll,
  raises \<open>OSError\<close>. The list of states is never built, so the fatal report is lost with
  it: the function logs, sleeps and polls again, and as both instances then report
  \<^verbatim>\<open>RUNNING\<close> it returns successfully.
\<close>

theorem fatal_report_lost_when_later_query_fails:
  "wait_for_process ''run_signals'' 2 ''RUNNING''
     \<lparr>trace = [],
      script = [Returns ''FATAL'', Raises OSError, Returns ''None'',
                Returns ''RUNNING'', Returns ''RUNNING''],
      running = []\<rparr> =
   Some (Inr (),
     \<lparr>trace = [LogInfo ''waiting for run_signals to start'',
               Called (GetProcessInfo ''run_signals:run_signals_0'') (Returns ''FATAL''),
               Called (GetProcessInfo ''run_signals:run_signals_1'') (Raises OSError),
               LogWarning, Called (Sleep 1) (Returns ''None''),
               Called (GetProcessInfo ''run_signals:run_signals_0'') (Returns ''RUNNING''),
               Called (GetProcessInfo ''run_signals:run_signals_1'') (Returns ''RUNNING'')],
      script = [], running = []\<rparr>)"
  by (simp add: run_eval)

text \<open>
  C3, as amended: whenever a poll of a stage wait (the first, or one after any number of
  rounds that ended in a sleep) is answered by every instance and some instance reports
  \<^verbatim>\<open>FATAL\<close>, \<^verbatim>\<open>wait_for_process\<close> raises \<^verbatim>\<open>AutoscalerBootstrapException\<close> with a
  message that names the group; the history ends with the queries of that poll (no sleep
  and no further poll follow), whatever the other instances reported and whatever the
  script holds next. When a query of the poll raises \<open>OSError\<close>, the states answered before
  it in that poll, fatal or not, are dropped: a warning, a sleep of one second and the
  next poll follow.
\<close>

theorem fatal_state_fails_at_once:
  "(list_all (retry_round num_procs terminal_state) rds \<longrightarrow>
    length ss = nat num_procs \<longrightarrow> ''FATAL'' \<in> set ss \<longrightarrow>
    script w = concat (map round_script rds) @ map Returns ss @ rest \<longrightarrow>
    wait_for_process process_name num_procs terminal_state w =
      Some (Inl (AutoscalerBootstrapException
                   (''Process '' @ process_name @ '' could not start; aborting'')),
            w\<lparr>trace := trace w @ LogInfo (''waiting for '' @ process_name @ '' to start'') #
                          concat (map (round_events process_name num_procs) rds) @
                          poll_events process_name (range_py num_procs) ss,
              script := rest\<rparr>)) \<and>
   (length ss < nat num_procs \<longrightarrow>
    script w = map Returns ss @ Raises OSError # Returns v # rest \<longrightarrow>
    wait_for_process_loop process_name num_procs terminal_state w =
      wait_for_process_loop process_name num_procs terminal_state
        (w\<lparr>trace := trace w @ poll_events process_name (range_py num_procs) ss @
                        [Called (GetProcessInfo (proc_id process_name (length ss))) (Raises OSError),
                         LogWarning, Called (Sleep 1) (Returns v)],
           script := rest\<rparr>))"
proof (intro conjI impI)
  assume a: "list_all (retry_round num_procs terminal_state) rds"
    "length ss = nat num_procs" "''FATAL'' \<in> set ss"
    "script w = concat (map round_script rds) @ map Returns ss @ rest"
  from a(3) have "list_ex (\<lambda>state. state = ''FATAL'') ss"
    by (auto simp: list_ex_iff)
  with a show "wait_for_process process_name num_procs terminal_state w =
      Some (Inl (AutoscalerBootstrapException
                   (''Process '' @ process_name @ '' could not start; aborting'')),
            w\<lparr>trace := trace w @ LogInfo (''waiting for '' @ process_name @ '' to start'') #
                          concat (map (round_events process_name num_procs) rds) @
                          poll_events process_name (range_py num_procs) ss,
              script := rest\<rparr>)"
    by (simp add: wait_for_process_after_retries [where rest = "map Returns ss @ rest"]
          loop_fatal [where ss = ss and rest = rest])
next
  assume "length ss < nat num_procs"
    and "script w = map Returns ss @ Raises OSError # Returns v # rest"
  then show "wait_for_process_loop process_name num_procs terminal_state w =
      wait_for_process_loop process_name num_procs terminal_state
        (w\<lparr>trace := trace w @ poll_events process_name (range_py num_procs) ss @
                        [Called (GetProcessInfo (proc_id process_name (length ss))) (Raises OSError),
                         LogWarning, Called (Sleep 1) (Returns v)],
           script := rest\<rparr>)"
    using loop_retry [of num_procs terminal_state "Unreachable ss v" w rest process_name]
    by simp
qed

theorem fatal_state_fails_at_once_witness:
  "wait_for_process ''run_signals'' 2 ''RUNNING''
     \<lparr>trace = [],
      script = [Returns ''FATAL'', Raises OSError, Returns ''None'',
                Returns ''FATAL'', Returns ''STARTING'', Returns ''RUNNING''],
      running = []\<rparr> =
   Some (Inl (AutoscalerBootstrapException ''Process run_signals could not start; aborting''),
         \<lparr>trace = [LogInfo ''waiting for run_signals to start'',
                   Called (GetProcessInfo ''run_signals:run_signals_0'') (Returns ''FATAL''),
                   Called (GetProcessInfo ''run_signals:run_signals_1'') (Raises OSError),
                   LogWarning, Called (Sleep 1) (Returns ''None''),
                   Called (GetProcessInfo ''run_signals:run_signals_0'') (Returns ''FATAL''),
                   Called (GetProcessInfo ''run_signals:run_signals_1'') (Returns ''STARTING'')],
          script = [Returns ''RUNNING''], running = []\<rparr>)"
  using fatal_state_fails_at_once [of 2 "''RUNNING''" "[Unreachable [''FATAL''] ''None'']"
      "[''FATAL'', ''STARTING'']"
      "\<lparr>trace = [],
        script = [Returns ''FATAL'', Raises OSError, Returns ''None'',
                  Returns ''FATAL'', Returns ''STARTING'', Returns ''RUNNING''],
        running = []\<rparr>" "[Returns ''RUNNING'']" "''run_signals''"]
  by (simp add: poll_events_def range_py_def proc_id_def str.simps upt_rec eval_nat_numeral)

text \<open>
  C5: \<^verbatim>\<open>wait_for_process\<close> returns successfully exactly when one poll sees every
  instance in the terminal state. First part: for a terminal state other than \<^verbatim>\<open>FATAL\<close>
  (the groups of the module wait for \<^verbatim>\<open>EXITED\<close> and \<^verbatim>\<open>RUNNING\<close>), after any number
  of rounds that had to be retried (none, if the first poll is already terminal: then no
  sleep happens at all), a poll in which all \<open>num_procs\<close> instances report the terminal
  state makes the function return, having used nothing of the script beyond that poll;
  every retried round slept once, for one second, so the history holds as many sleeps as
  there were retried rounds, in any number. Second part: whenever the function returns
  successfully, the last thing it did was a poll in which every instance reported the
  terminal state.
\<close>

theorem wait_for_process_returns_on_terminal_poll:
  "(terminal_state \<noteq> ''FATAL'' \<longrightarrow>
    list_all (retry_round num_procs terminal_state) rds \<longrightarrow>
    script w = concat (map round_script rds) @
               map Returns (replicate (nat num_procs) terminal_state) @ rest \<longrightarrow>
    wait_for_process process_name num_procs terminal_state w =
      Some (Inr (),
            w\<lparr>trace := trace w @ LogInfo (''waiting for '' @ process_name @ '' to start'') #
                          concat (map (round_events process_name num_procs) rds) @
                          poll_events process_name (range_py num_procs)
                            (replicate (nat num_procs) terminal_state),
              script := rest\<rparr>) \<and>
    calls (Sleep 1)
      (concat (map (round_events process_name num_procs) rds) @
       poll_events process_name (range_py num_procs) (replicate (nat num_procs) terminal_state)) =
      length rds) \<and>
   (\<forall>w'. wait_for_process process_name num_procs terminal_state w = Some (Inr (), w') \<longrightarrow>
      (\<exists>tr. trace w' = trace w @ tr @
            poll_events process_name (range_py num_procs)
              (replicate (nat num_procs) terminal_state)))"
proof (intro conjI impI allI)
  assume ts: "terminal_state \<noteq> ''FATAL''"
    and rds: "list_all (retry_round num_procs terminal_state) rds"
    and sc: "script w = concat (map round_script rds) @
               map Returns (replicate (nat num_procs) terminal_state) @ rest"
  let ?ss = "replicate (nat num_procs) terminal_state"
  from rds sc have "wait_for_process process_name num_procs terminal_state w =
     wait_for_process_loop process_name num_procs terminal_state
       (w\<lparr>trace := trace w @ LogInfo (''waiting for '' @ process_name @ '' to start'') #
                       concat (map (round_events process_name num_procs) rds),
          script := map Returns ?ss @ rest\<rparr>)"
    by (rule wait_for_process_after_retries)
  also have "\<dots> = Some (Inr (),
            w\<lparr>trace := trace w @ LogInfo (''waiting for '' @ process_name @ '' to start'') #
                          concat (map (round_events process_name num_procs) rds) @
                          poll_events process_name (range_py num_procs) ?ss,
              script := rest\<rparr>)"
    using ts by (subst loop_done [where ss = ?ss and rest = rest])
      (simp_all add: no_fatal_replicate all_replicate)
  finally show "wait_for_process process_name num_procs terminal_state w =
      Some (Inr (),
            w\<lparr>trace := trace w @ LogInfo (''waiting for '' @ process_name @ '' to start'') #
                          concat (map (round_events process_name num_procs) rds) @
                          poll_events process_name (range_py num_procs) ?ss,
              script := rest\<rparr>)" .
  show "calls (Sleep 1)
      (concat (map (round_events process_name num_procs) rds) @
       poll_events process_name (range_py num_procs) ?ss) = length rds"
    by (simp add: sleeps_of_rounds calls_poll_events)
next
  fix w'
  assume "wait_for_process process_name num_procs terminal_state w = Some (Inr (), w')"
  from loop_success_last_poll [OF this [unfolded wait_for_process_def]]
  obtain tr where "trace w' = trace w @
      (LogInfo (''waiting for '' @ process_name @ '' to start'') # tr) @
      poll_events process_name (range_py num_procs) (replicate (nat num_procs) terminal_state)"
    by (auto simp: emit_def)
  then show "\<exists>tr. trace w' = trace w @ tr @
            poll_events process_name (range_py num_procs)
              (replicate (nat num_procs) terminal_state)"
    by blast
qed

theorem wait_for_process_returns_on_terminal_poll_witness:
  "wait_for_process ''fetch_signals'' 2 ''EXITED''
     \<lparr>trace = [],
      script = map Returns [''EXITED'', ''STARTING'', ''None'', ''EXITED'', ''EXITED'', ''OK''],
      running = []\<rparr> =
   Some (Inr (),
         \<lparr>trace = [LogInfo ''waiting for fetch_signals to start'',
                   Called (GetProcessInfo ''fetch_signals:fetch_signals_0'') (Returns ''EXITED''),
                   Called (GetProcessInfo ''fetch_signals:fetch_signals_1'') (Returns ''STARTING''),
                   Called (Sleep 1) (Returns ''None''),
                   Called (GetProcessInfo ''fetch_signals:fetch_signals_0'') (Returns ''EXITED''),
                   Called (GetProcessInfo ''fetch_signals:fetch_signals_1'') (Returns ''EXITED'')],
          script = [Returns ''OK''], running = []\<rparr>) \<and>
   (\<exists>tr. [LogInfo ''waiting for fetch_signals to start'',
          Called (GetProcessInfo ''fetch_signals:fetch_signals_0'') (Returns ''EXITED''),
          Called (GetProcessInfo ''fetch_signals:fetch_signals_1'') (Returns ''STARTING''),
          Called (Sleep 1) (Returns ''None''),
          Called (GetProcessInfo ''fetch_signals:fetch_signals_0'') (Returns ''EXITED''),
          Called (GetProcessInfo ''fetch_signals:fetch_signals_1'') (Returns ''EXITED'')] =
         tr @ poll_events ''fetch_signals'' (range_py 2) (replicate (nat 2) ''EXITED''))"
proof -
  let ?w = "\<lparr>trace = [],
        script = map Returns [''EXITED'', ''STARTING'', ''None'', ''EXITED'', ''EXITED'', ''OK''],
        running = []\<rparr>"
  note inst = wait_for_process_returns_on_terminal_poll [of "''EXITED''" 2
      "[Pending [''EXITED'', ''STARTING''] ''None'']" ?w "[Returns ''OK'']" "''fetch_signals''"]
  have e: "wait_for_process ''fetch_signals'' 2 ''EXITED'' ?w =
   Some (Inr (),
         \<lparr>trace = [LogInfo ''waiting for fetch_signals to start'',
                   Called (GetProcessInfo ''fetch_signals:fetch_signals_0'') (Returns ''EXITED''),
                   Called (GetProcessInfo ''fetch_signals:fetch_signals_1'') (Returns ''STARTING''),
                   Called (Sleep 1) (Returns ''None''),
                   Called (GetProcessInfo ''fetch_signals:fetch_signals_0'') (Returns ''EXITED''),
                   Called (GetProcessInfo ''fetch_signals:fetch_signals_1'') (Returns ''EXITED'')],
          script = [Returns ''OK''], running = []\<rparr>)"
    using inst
    by (simp add: poll_events_def range_py_def proc_id_def str.simps upt_rec eval_nat_numeral)
  from inst have "\<forall>w'. wait_for_process ''fetch_signals'' 2 ''EXITED'' ?w = Some (Inr (), w') \<longrightarrow>
      (\<exists>tr. trace w' = trace ?w @ tr @
            poll_events ''fetch_signals'' (range_py 2) (replicate (nat 2) ''EXITED''))"
    by (rule conjunct2)
  with e show ?thesis by simp
qed

text \<open>
  C6: a poll in which a status query raises \<open>OSError\<close> does not end the wait. Any number
  of such rounds, each logged with one warning and followed by one sleep of one second,
  leaves the loop where it would have been without them, apart from the history; so if
  healthy answers follow in which all instances report the terminal state, the wait
  returns successfully.
\<close>

theorem connectivity_failures_only_delay:
  assumes "list_all is_Unreachable rds"
    and "list_all (retry_round num_procs terminal_state) rds"
    and "script w = concat (map round_script rds) @ rest"
  shows "wait_for_process_loop process_name num_procs terminal_state w =
       wait_for_process_loop process_name num_procs terminal_state
         (w\<lparr>trace := trace w @ concat (map (round_events process_name num_procs) rds),
            script := rest\<rparr>) \<and>
     count_list (concat (map (round_events process_name num_procs) rds)) LogWarning = length rds \<and>
     calls (Sleep 1) (concat (map (round_events process_name num_procs) rds)) = length rds \<and>
     (terminal_state \<noteq> ''FATAL'' \<longrightarrow>
      (\<forall>rest'. rest = map Returns (replicate (nat num_procs) terminal_state) @ rest' \<longrightarrow>
        wait_for_process process_name num_procs terminal_state w =
          Some (Inr (),
            w\<lparr>trace := trace w @ LogInfo (''waiting for '' @ process_name @ '' to start'') #
                          concat (map (round_events process_name num_procs) rds) @
                          poll_events process_name (range_py num_procs)
                            (replicate (nat num_procs) terminal_state),
              script := rest'\<rparr>)))"
proof (intro conjI impI allI)
  show "wait_for_process_loop process_name num_procs terminal_state w =
       wait_for_process_loop process_name num_procs terminal_state
         (w\<lparr>trace := trace w @ concat (map (round_events process_name num_procs) rds),
            script := rest\<rparr>)"
    using assms(2,3) by (rule loop_retries)
  show "count_list (concat (map (round_events process_name num_procs) rds)) LogWarning = length rds"
    using assms(1) by (rule warnings_of_rounds)
  show "calls (Sleep 1) (concat (map (round_events process_name num_procs) rds)) = length rds"
    by (rule sleeps_of_rounds)
next
  fix rest'
  let ?ss = "replicate (nat num_procs) terminal_state"
  assume ts: "terminal_state \<noteq> ''FATAL''" and rest: "rest = map Returns ?ss @ rest'"
  from assms(2,3) have "wait_for_process process_name num_procs terminal_state w =
     wait_for_process_loop process_name num_procs terminal_state
       (w\<lparr>trace := trace w @ LogInfo (''waiting for '' @ process_name @ '' to start'') #
                       concat (map (round_events process_name num_procs) rds),
          script := rest\<rparr>)"
    by (rule wait_for_process_after_retries)
  also have "\<dots> = Some (Inr (),
            w\<lparr>trace := trace w @ LogInfo (''waiting for '' @ process_name @ '' to start'') #
                          concat (map (round_events process_name num_procs) rds) @
                          poll_events process_name (range_py num_procs) ?ss,
              script := rest'\<rparr>)"
    using ts rest by (subst loop_done [where ss = ?ss and rest = rest'])
      (simp_all add: no_fatal_replicate all_replicate)
  finally show "wait_for_process process_name num_procs terminal_state w =
          Some (Inr (),
            w\<lparr>trace := trace w @ LogInfo (''waiting for '' @ process_name @ '' to start'') #
                          concat (map (round_events process_name num_procs) rds) @
                          poll_events process_name (range_py num_procs) ?ss,
              script := rest'\<rparr>)" .
qed

theorem connectivity_failures_only_delay_witness:
  "wait_for_process ''run_signals'' 2 ''RUNNING''
     \<lparr>trace = [],
      script = [Raises OSError, Returns ''None'', Returns ''STARTING'', Raises OSError,
                Returns ''None'', Returns ''RUNNING'', Returns ''RUNNING''],
      running = []\<rparr> =
   Some (Inr (),
         \<lparr>trace = [LogInfo ''waiting for run_signals to start'',
                   Called (GetProcessInfo ''run_signals:run_signals_0'') (Raises OSError),
                   LogWarning, Called (Sleep 1) (Returns ''None''),
                   Called (GetProcessInfo ''run_signals:run_signals_0'') (Returns ''STARTING''),
                   Called (GetProcessInfo ''run_signals:run_signals_1'') (Raises OSError),
                   LogWarning, Called (Sleep 1) (Returns ''None''),
                   Called (GetProcessInfo ''run_signals:run_signals_0'') (Returns ''RUNNING''),
                   Called (GetProcessInfo ''run_signals:run_signals_1'') (Returns ''RUNNING'')],
          script = [], running = []\<rparr>)"
  using connectivity_failures_only_delay [of
      "[Unreachable [] ''None'', Unreachable [''STARTING''] ''None'']" 2 "''RUNNING''"
      "\<lparr>trace = [],
        script = [Raises OSError, Returns ''None'', Returns ''STARTING'', Raises OSError,
                  Returns ''None'', Returns ''RUNNING'', Returns ''RUNNING''],
        running = []\<rparr>" "[Returns ''RUNNING'', Returns ''RUNNING'']" "''run_signals''"]
  by (simp add: poll_events_def range_py_def proc_id_def str.simps upt_rec eval_nat_numeral)

text \<open>
  C8, as stated, fails for a poll that is cut short: with two instances, the first query
  of the first poll raises \<open>OSError\<close>, and that poll never asks for instance 1; only the
  next poll asks for both.
\<close>

theorem poll_cut_short_skips_instances:
  "wait_for_process ''run_signals'' 2 ''RUNNING''
     \<lparr>trace = [],
      script = [Raises OSError, Returns ''None'', Returns ''RUNNING'', Returns ''RUNNING''],
      running = []\<rparr> =
   Some (Inr (),
     \<lparr>trace = [LogInfo ''waiting for run_signals to start'',
               Called (GetProcessInfo ''run_signals:run_signals_0'') (Raises OSError),
               LogWarning, Called (Sleep 1) (Returns ''None''),
               Called (GetProcessInfo ''run_signals:run_signals_0'') (Returns ''RUNNING''),
               Called (GetProcessInfo ''run_signals:run_signals_1'') (Returns ''RUNNING'')],
      script = [], running = []\<rparr>)"
  by (simp add: run_eval)

text \<open>
  C8, as amended: the status queries of a stage wait are named
  \<^verbatim>\<open>{process_name}:{process_name}_{i}\<close> with \<open>i\<close> below \<open>num_procs\<close>. The history of
  every stage wait that ends is the log line, then the rounds that were retried, then the
  last round. In each round the poll asks for the indices \<open>0, 1, \<dots>\<close> in this order, one
  query each, and stops at the first query that raises; a poll in which no query raises
  has asked for every index below \<open>num_procs\<close> exactly once. (The first part states the
  same of the list comprehension alone.)
\<close>

theorem status_queries_follow_naming:
  "(\<forall>r w'. get_states process_name (range_py num_procs) w = Some (r, w') \<longrightarrow>
      (\<exists>outs. length outs \<le> nat num_procs \<and>
         trace w' = trace w @
           map (\<lambda>(i, out).
                  Called (GetProcessInfo (process_name @ '':'' @ process_name @ ''_'' @ str i)) out)
             (zip [0..<nat num_procs] outs) \<and>
         (\<forall>ss. r = Inr ss \<longrightarrow> length outs = nat num_procs))) \<and>
   (\<forall>res w'. wait_for_process process_name num_procs terminal_state w = Some (res, w') \<longrightarrow>
      (\<exists>tr. trace w' = trace w @ tr \<and>
         (\<forall>p out. Called (GetProcessInfo p) out \<in> set tr \<longrightarrow>
            (\<exists>i < nat num_procs. p = process_name @ '':'' @ process_name @ ''_'' @ str i)))) \<and>
   (\<forall>res w'. wait_for_process process_name num_procs terminal_state w = Some (res, w') \<longrightarrow>
      (\<exists>rds fin. list_all (retry_round num_procs terminal_state) rds \<and>
         trace w' = trace w @ LogInfo (''waiting for '' @ process_name @ '' to start'') #
                    concat (map (round_events process_name num_procs) rds) @ fin \<and>
         ((\<exists>ss. length ss = nat num_procs \<and>
             fin = poll_events process_name (range_py num_procs) ss \<and>
             (list_ex (\<lambda>state. state = ''FATAL'') ss \<and>
                res = Inl (AutoscalerBootstrapException
                             (''Process '' @ process_name @ '' could not start; aborting'')) \<or>
              \<not> list_ex (\<lambda>state. state = ''FATAL'') ss \<and>
                list_all (\<lambda>state. state = terminal_state) ss \<and> res = Inr ())) \<or>
          (\<exists>ss x. length ss < nat num_procs \<and> x \<noteq> OSError \<and>
             fin = poll_events process_name (range_py num_procs) ss @
                   [Called (GetProcessInfo (proc_id process_name (length ss))) (Raises x)] \<and>
             res = Inl (External x)) \<or>
          (\<exists>ss x. length ss = nat num_procs \<and>
             \<not> list_ex (\<lambda>state. state = ''FATAL'') ss \<and>
             \<not> list_all (\<lambda>state. state = terminal_state) ss \<and>
             fin = poll_events process_name (range_py num_procs) ss @
                   [Called (Sleep 1) (Raises x)] \<and>
             res = Inl (External x)) \<or>
          (\<exists>ss x. length ss < nat num_procs \<and>
             fin = poll_events process_name (range_py num_procs) ss @
                   [Called (GetProcessInfo (proc_id process_name (length ss))) (Raises OSError),
                    LogWarning, Called (Sleep 1) (Raises x)] \<and>
             res = Inl (External x))))) \<and>
   (\<forall>ss. poll_events process_name (range_py num_procs) ss =
      map (\<lambda>(i, s).
             Called (GetProcessInfo (process_name @ '':'' @ process_name @ ''_'' @ str i))
               (Returns s))
        (zip [0..<nat num_procs] ss)) \<and>
   (\<forall>i. proc_id process_name i = process_name @ '':'' @ process_name @ ''_'' @ str i)"
proof (intro conjI allI impI)
  fix r w'
  assume "get_states process_name (range_py num_procs) w = Some (r, w')"
  from get_states_queries [OF this]
  show "\<exists>outs. length outs \<le> nat num_procs \<and>
         trace w' = trace w @
           map (\<lambda>(i, out).
                  Called (GetProcessInfo (process_name @ '':'' @ process_name @ ''_'' @ str i)) out)
             (zip [0..<nat num_procs] outs) \<and>
         (\<forall>ss. r = Inr ss \<longrightarrow> length outs = nat num_procs)"
    by (simp add: proc_id_def range_py_def)
next
  fix res w'
  assume "wait_for_process process_name num_procs terminal_state w = Some (res, w')"
  from wait_for_process_events [OF this] obtain tr where
    tr: "trace w' = trace w @ tr" "list_all (wait_event process_name num_procs) tr"
    by blast
  have "\<exists>i < nat num_procs. p = process_name @ '':'' @ process_name @ ''_'' @ str i"
    if "Called (GetProcessInfo p) out \<in> set tr" for p out
  proof -
    from that tr(2) have "wait_event process_name num_procs (Called (GetProcessInfo p) out)"
      by (auto simp: list_all_iff)
    then show ?thesis by (auto simp: proc_id_def range_py_def)
  qed
  with tr(1) show "\<exists>tr. trace w' = trace w @ tr \<and>
         (\<forall>p out. Called (GetProcessInfo p) out \<in> set tr \<longrightarrow>
            (\<exists>i < nat num_procs. p = process_name @ '':'' @ process_name @ ''_'' @ str i))"
    by blast
next
  fix res w'
  assume "wait_for_process process_name num_procs terminal_state w = Some (res, w')"
  from wait_for_process_history [OF this, unfolded last_round_def]
  show "\<exists>rds fin. list_all (retry_round num_procs terminal_state) rds \<and>
         trace w' = trace w @ LogInfo (''waiting for '' @ process_name @ '' to start'') #
                    concat (map (round_events process_name num_procs) rds) @ fin \<and>
         ((\<exists>ss. length ss = nat num_procs \<and>
             fin = poll_events process_name (range_py num_procs) ss \<and>
             (list_ex (\<lambda>state. state = ''FATAL'') ss \<and>
                res = Inl (AutoscalerBootstrapException
                             (''Process '' @ process_name @ '' could not start; aborting'')) \<or>
              \<not> list_ex (\<lambda>state. state = ''FATAL'') ss \<and>
                list_all (\<lambda>state. state = terminal_state) ss \<and> res = Inr ())) \<or>
          (\<exists>ss x. length ss < nat num_procs \<and> x \<noteq> OSError \<and>
             fin = poll_events process_name (range_py num_procs) ss @
                   [Called (GetProcessInfo (proc_id process_name (length ss))) (Raises x)] \<and>
             res = Inl (External x)) \<or>
          (\<exists>ss x. length ss = nat num_procs \<and>
             \<not> list_ex (\<lambda>state. state = ''FATAL'') ss \<and>
             \<not> list_all (\<lambda>state. state = terminal_state) ss \<and>
             fin = poll_events process_name (range_py num_procs) ss @
                   [Called (Sleep 1) (Raises x)] \<and>
             res = Inl (External x)) \<or>
          (\<exists>ss x. length ss < nat num_procs \<and>
             fin = poll_events process_name (range_py num_procs) ss @
                   [Called (GetProcessInfo (proc_id process_name (length ss))) (Raises OSError),
                    LogWarning, Called (Sleep 1) (Raises x)] \<and>
             res = Inl (External x)))" .
next
  fix ss
  show "poll_events process_name (range_py num_procs) ss =
      map (\<lambda>(i, s).
             Called (GetProcessInfo (process_name @ '':'' @ process_name @ ''_'' @ str i))
               (Returns s))
        (zip [0..<nat num_procs] ss)"
    by (simp add: poll_events_def proc_id_def range_py_def)
next
  fix i
  show "proc_id process_name i = process_name @ '':'' @ process_name @ ''_'' @ str i"
    by (simp add: proc_id_def)
qed

theorem status_queries_follow_naming_witness:
  "wait_for_process ''run_signals'' 2 ''RUNNING''
     \<lparr>trace = [],
      script = map Returns [''RUNNING'', ''STARTING'', ''None'', ''RUNNING'', ''RUNNING''],
      running = []\<rparr> =
   Some (Inr (),
     \<lparr>trace = [LogInfo ''waiting for run_signals to start'',
               Called (GetProcessInfo ''run_signals:run_signals_0'') (Returns ''RUNNING''),
               Called (GetProcessInfo ''run_signals:run_signals_1'') (Returns ''STARTING''),
               Called (Sleep 1) (Returns ''None''),
               Called (GetProcessInfo ''run_signals:run_signals_0'') (Returns ''RUNNING''),
               Called (GetProcessInfo ''run_signals:run_signals_1'') (Returns ''RUNNING'')],
      script = [], running = []\<rparr>) \<and>
   (\<exists>rds ss. list_all (retry_round 2 ''RUNNING'') rds \<and> length ss = nat 2 \<and>
      [LogInfo ''waiting for run_signals to start'',
       Called (GetProcessInfo ''run_signals:run_signals_0'') (Returns ''RUNNING''),
       Called (GetProcessInfo ''run_signals:run_signals_1'') (Returns ''STARTING''),
       Called (Sleep 1) (Returns ''None''),
       Called (GetProcessInfo ''run_signals:run_signals_0'') (Returns ''RUNNING''),
       Called (GetProcessInfo ''run_signals:run_signals_1'') (Returns ''RUNNING'')] =
      LogInfo ''waiting for run_signals to start'' #
      concat (map (round_events ''run_signals'' 2) rds) @
      map (\<lambda>(i, s). Called (GetProcessInfo (''run_signals'' @ '':'' @ ''run_signals'' @ ''_'' @ str i))
                       (Returns s))
        (zip [0..<nat 2] ss))"
proof -
  let ?w = "\<lparr>trace = [],
      script = map Returns [''RUNNING'', ''STARTING'', ''None'', ''RUNNING'', ''RUNNING''],
      running = []\<rparr>"
  let ?tr = "[LogInfo ''waiting for run_signals to start'',
               Called (GetProcessInfo ''run_signals:run_signals_0'') (Returns ''RUNNING''),
               Called (GetProcessInfo ''run_signals:run_signals_1'') (Returns ''STARTING''),
               Called (Sleep 1) (Returns ''None''),
               Called (GetProcessInfo ''run_signals:run_signals_0'') (Returns ''RUNNING''),
               Called (GetProcessInfo ''run_signals:run_signals_1'') (Returns ''RUNNING'')]"
  have e: "wait_for_process ''run_signals'' 2 ''RUNNING'' ?w =
     Some (Inr (), \<lparr>trace = ?tr, script = [], running = []\<rparr>)"
    by (simp add: run_eval)
  note inst = status_queries_follow_naming [of "''run_signals''" 2 ?w "''RUNNING''"]
  note hist = inst [THEN conjunct2, THEN conjunct2, THEN conjunct1, rule_format, OF e]
  from hist obtain rds fin where
    h: "list_all (retry_round 2 ''RUNNING'') rds"
      "?tr = LogInfo ''waiting for run_signals to start'' #
              concat (map (round_events ''run_signals'' 2) rds) @ fin"
      "\<exists>ss. length ss = nat 2 \<and> fin = poll_events ''run_signals'' (range_py 2) ss"
    by auto
  from h(3) obtain ss where ss: "length ss = nat 2"
    "fin = poll_events ''run_signals'' (range_py 2) ss" by blast
  from inst have "poll_events ''run_signals'' (range_py 2) ss =
      map (\<lambda>(i, s). Called (GetProcessInfo (''run_signals'' @ '':'' @ ''run_signals'' @ ''_'' @ str i))
                       (Returns s))
        (zip [0..<nat 2] ss)"
    by blast
  with h(2) ss(2) have "?tr = LogInfo ''waiting for run_signals to start'' #
      concat (map (round_events ''run_signals'' 2) rds) @
      map (\<lambda>(i, s). Called (GetProcessInfo (''run_signals'' @ '':'' @ ''run_signals'' @ ''_'' @ str i))
                       (Returns s))
        (zip [0..<nat 2] ss)"
    by simp
  with h(1) ss(1) e show ?thesis by blast
qed

text \<open>
  C10: only \<open>OSError\<close> is caught. When a status query raises anything else (an RPC fault,
  or \<open>KeyboardInterrupt\<close>), in the first poll or after retried rounds, the exception
  leaves \<^verbatim>\<open>wait_for_process\<close> at once: the history ends with the raising query, with no
  warning, no sleep and no further poll. When the query raises \<open>OSError\<close>, the loop logs
  a warning, sleeps one second and goes on with the next poll.
\<close>

theorem only_OSError_is_retried:
  "(list_all (retry_round num_procs terminal_state) rds \<longrightarrow> length ss < nat num_procs \<longrightarrow>
    e \<noteq> OSError \<longrightarrow>
    script w = concat (map round_script rds) @ map Returns ss @ Raises e # rest \<longrightarrow>
    wait_for_process process_name num_procs terminal_state w =
      Some (Inl (External e),
            w\<lparr>trace := trace w @ LogInfo (''waiting for '' @ process_name @ '' to start'') #
                          concat (map (round_events process_name num_procs) rds) @
                          poll_events process_name (range_py num_procs) ss @
                          [Called (GetProcessInfo (proc_id process_name (length ss))) (Raises e)],
              script := rest\<rparr>)) \<and>
   (length ss < nat num_procs \<longrightarrow>
    script w = map Returns ss @ Raises OSError # Returns v # rest \<longrightarrow>
    wait_for_process_loop process_name num_procs terminal_state w =
      wait_for_process_loop process_name num_procs terminal_state
        (w\<lparr>trace := trace w @ poll_events process_name (range_py num_procs) ss @
                        [Called (GetProcessInfo (proc_id process_name (length ss))) (Raises OSError),
                         LogWarning, Called (Sleep 1) (Returns v)],
           script := rest\<rparr>))"
proof (intro conjI impI)
  assume rds: "list_all (retry_round num_procs terminal_state) rds"
    and len: "length ss < nat num_procs" and e: "e \<noteq> OSError"
    and sc: "script w = concat (map round_script rds) @ map Returns ss @ Raises e # rest"
  from rds sc have "wait_for_process process_name num_procs terminal_state w =
     wait_for_process_loop process_name num_procs terminal_state
       (w\<lparr>trace := trace w @ LogInfo (''waiting for '' @ process_name @ '' to start'') #
                       concat (map (round_events process_name num_procs) rds),
          script := map Returns ss @ Raises e # rest\<rparr>)"
    by (rule wait_for_process_after_retries)
  also have "\<dots> = Some (Inl (External e),
            w\<lparr>trace := trace w @ LogInfo (''waiting for '' @ process_name @ '' to start'') #
                          concat (map (round_events process_name num_procs) rds) @
                          poll_events process_name (range_py num_procs) ss @
                          [Called (GetProcessInfo (proc_id process_name (length ss))) (Raises e)],
              script := rest\<rparr>)"
    using len e by (subst loop_other_exn [where ss = ss and e = e and rest = rest]) simp_all
  finally show "wait_for_process process_name num_procs terminal_state w =
      Some (Inl (External e),
            w\<lparr>trace := trace w @ LogInfo (''waiting for '' @ process_name @ '' to start'') #
                          concat (map (round_events process_name num_procs) rds) @
                          poll_events process_name (range_py num_procs) ss @
                          [Called (GetProcessInfo (proc_id process_name (length ss))) (Raises e)],
              script := rest\<rparr>)" .
next
  assume "length ss < nat num_procs"
    and "script w = map Returns ss @ Raises OSError # Returns v # rest"
  then show "wait_for_process_loop process_name num_procs terminal_state w =
      wait_for_process_loop process_name num_procs terminal_state
        (w\<lparr>trace := trace w @ poll_events process_name (range_py num_procs) ss @
                        [Called (GetProcessInfo (proc_id process_name (length ss))) (Raises OSError),
                         LogWarning, Called (Sleep 1) (Returns v)],
           script := rest\<rparr>)"
    using loop_retry [of num_procs terminal_state "Unreachable ss v" w rest process_name]
    by simp
qed

theorem only_OSError_is_retried_witness:
  "wait_for_process ''fetch_signals'' 2 ''EXITED''
     \<lparr>trace = [],
      script = [Raises OSError, Returns ''None'', Returns ''EXITED'',
                Raises (OtherException ''xmlrpc.client.Fault''), Returns ''EXITED''],
      running = []\<rparr> =
   Some (Inl (External (OtherException ''xmlrpc.client.Fault'')),
         \<lparr>trace = [LogInfo ''waiting for fetch_signals to start'',
                   Called (GetProcessInfo ''fetch_signals:fetch_signals_0'') (Raises OSError),
                   LogWarning, Called (Sleep 1) (Returns ''None''),
                   Called (GetProcessInfo ''fetch_signals:fetch_signals_0'') (Returns ''EXITED''),
                   Called (GetProcessInfo ''fetch_signals:fetch_signals_1'')
                     (Raises (OtherException ''xmlrpc.client.Fault''))],
          script = [Returns ''EXITED''], running = []\<rparr>)"
  using only_OSError_is_retried [of 2 "''EXITED''" "[Unreachable [] ''None'']" "[''EXITED'']"
      "OtherException ''xmlrpc.client.Fault''"
      "\<lparr>trace = [],
        script = [Raises OSError, Returns ''None'', Returns ''EXITED'',
                  Raises (OtherException ''xmlrpc.client.Fault''), Returns ''EXITED''],
        running = []\<rparr>" "[Returns ''EXITED'']" "''fetch_signals''"]
  by (simp add: poll_events_def range_py_def proc_id_def str.simps upt_rec eval_nat_numeral)

section \<open>The history of \<^verbatim>\<open>run\<close>\<close>

lemma wait_event_quiet: "wait_event process_name num_procs ev \<Longrightarrow> quiet ev"
  by (cases "(process_name, num_procs, ev)" rule: wait_event.cases) auto

lemma quiet_calls:
  "list_all quiet tr \<Longrightarrow> (\<And>q. p \<noteq> GetProcessInfo q) \<Longrightarrow> (\<And>k. p \<noteq> Sleep k) \<Longrightarrow>
   calls p tr = 0"
proof (induction tr)
  case Nil
  then show ?case by simp
next
  case (Cons ev tr)
  then show ?case by (cases ev rule: quiet.cases) auto
qed

lemma quiet_poll_events [simp]: "list_all quiet (poll_events process_name is ss)"
  by (auto simp: poll_events_def list_all_iff)

lemma wait_for_process_quiet:
  assumes "wait_for_process process_name num_procs terminal_state w = Some (res, w')"
  shows "\<exists>tr. trace w' = trace w @ tr \<and> list_all quiet tr"
proof -
  from wait_for_process_events [OF assms] obtain tr where
    "trace w' = trace w @ tr" "list_all (wait_event process_name num_procs) tr"
    by blast
  then show ?thesis by (auto simp: list_all_iff dest: wait_event_quiet)
qed

lemma wait_for_process_success_shape:
  assumes "wait_for_process process_name num_procs terminal_state w = Some (Inr (), w')"
  shows "\<exists>tr. trace w' = trace w @ tr @
            poll_events process_name (range_py num_procs)
              (replicate (nat num_procs) terminal_state) \<and> list_all quiet tr"
proof -
  from loop_success_last_poll [OF assms [unfolded wait_for_process_def]]
  obtain tr where t: "trace w' = trace w @
      (LogInfo (''waiting for '' @ process_name @ '' to start'') # tr) @
      poll_events process_name (range_py num_procs) (replicate (nat num_procs) terminal_state)"
    by (auto simp: emit_def)
  from wait_for_process_quiet [OF assms] obtain tr' where
    "trace w' = trace w @ tr'" "list_all quiet tr'"
    by blast
  with t have "list_all quiet (LogInfo (''waiting for '' @ process_name @ '' to start'') # tr)"
    by auto
  with t show ?thesis by blast
qed

lemma steady_step_cases:
  assumes "steady_state_loop w = Some (res, w')"
  obtains
    (stopped) bs where "running w = False # bs" and "w' = w\<lparr>running := bs\<rparr>" and "res = Inr ()"
  | (query_done) bs r where "running w = True # bs"
      and "call (GetProcessInfo ''autoscaler'') (w\<lparr>running := bs\<rparr>) = Some (r, w')"
      and "res = (case r of Inl e \<Rightarrow> Inl e | Inr statename \<Rightarrow> Inr ())"
  | (sleep_raises) bs statename w2 e where "running w = True # bs"
      and "call (GetProcessInfo ''autoscaler'') (w\<lparr>running := bs\<rparr>) = Some (Inr statename, w2)"
      and "statename \<in> set SUPERVISORD_RUNNING_STATES"
      and "call (Sleep 5) w2 = Some (Inl e, w')" and "res = Inl e"
  | (again) bs statename w2 v w3 where "running w = True # bs"
      and "call (GetProcessInfo ''autoscaler'') (w\<lparr>running := bs\<rparr>) = Some (Inr statename, w2)"
      and "statename \<in> set SUPERVISORD_RUNNING_STATES"
      and "call (Sleep 5) w2 = Some (Inr v, w3)"
      and "steady_state_loop w3 = Some (res, w')"
  using assms
  by (subst (asm) steady_state_loop.simps)
     (auto simp: read_running_def split: option.splits sum.splits prod.splits if_splits list.splits)

lemma call_quiet:
  assumes "call p w = Some (r, w')" and "quiet (Called p undefined)"
  shows "\<exists>tr. trace w' = trace w @ tr \<and> list_all quiet tr"
proof -
  from call_trace [OF assms(1)] obtain out where "trace w' = trace w @ [Called p out]"
    by blast
  moreover from assms(2) have "quiet (Called p out)"
    by (cases "Called p out" rule: quiet.cases) auto
  ultimately show ?thesis by simp
qed

lemma steady_state_loop_quiet:
  "steady_state_loop w = Some (res, w') \<Longrightarrow> \<exists>tr. trace w' = trace w @ tr \<and> list_all quiet tr"
proof (induction w rule: steady_state_loop.induct)
  case (1 w)
  from "1.prems" show ?case
  proof (cases rule: steady_step_cases)
    case (stopped bs)
    then show ?thesis by simp
  next
    case (query_done bs r)
    from call_quiet [OF query_done(2)] show ?thesis by simp
  next
    case (sleep_raises bs statename w2 e)
    from call_quiet [OF sleep_raises(2)] call_quiet [OF sleep_raises(4)]
    show ?thesis by auto
  next
    case (again bs statename w2 v w3)
    have rr: "read_running w = Some (True, w\<lparr>running := bs\<rparr>)"
      using again(1) by (simp add: read_running_def)
    from "1.IH" [OF rr refl _ again(2) refl refl again(3) again(4) refl refl again(5)]
    obtain tr3 where "trace w' = trace w3 @ tr3" "list_all quiet tr3" by auto
    with call_quiet [OF again(2)] call_quiet [OF again(4)]
    show ?thesis by auto
  qed
qed

lemma quiet_no_commands:
  assumes "list_all quiet tr"
  shows "calls (StartProcessGroup g) tr = 0" and "calls (StartProcess n) tr = 0"
    and "calls Shutdown tr = 0" and "calls ProcWait tr = 0"
  using assms by (simp_all add: quiet_calls)

lemma run_try_cases:
  assumes "run_try fetch_proc_count run_proc_count w = Some (res, w')"
  obtains
    (fetch_raised) e where
      "wait_for_process ''fetch_signals'' fetch_proc_count ''EXITED'' w = Some (Inl e, w')"
      and "res = Inl e"
  | (start_group_raised) w1 e where
      "wait_for_process ''fetch_signals'' fetch_proc_count ''EXITED'' w = Some (Inr (), w1)"
      and "call (StartProcessGroup ''run_signals'') w1 = Some (Inl e, w')"
      and "res = Inl e"
  | (run_raised) w1 v w2 e where
      "wait_for_process ''fetch_signals'' fetch_proc_count ''EXITED'' w = Some (Inr (), w1)"
      and "call (StartProcessGroup ''run_signals'') w1 = Some (Inr v, w2)"
      and "wait_for_process ''run_signals'' run_proc_count ''RUNNING'' w2 = Some (Inl e, w')"
      and "res = Inl e"
  | (start_raised) w1 v w2 w3 e where
      "wait_for_process ''fetch_signals'' fetch_proc_count ''EXITED'' w = Some (Inr (), w1)"
      and "call (StartProcessGroup ''run_signals'') w1 = Some (Inr v, w2)"
      and "wait_for_process ''run_signals'' run_proc_count ''RUNNING'' w2 = Some (Inr (), w3)"
      and "call (StartProcess ''autoscaler'') w3 = Some (Inl e, w')"
      and "res = Inl e"
  | (monitoring) w1 v w2 w3 v' w4 where
      "wait_for_process ''fetch_signals'' fetch_proc_count ''EXITED'' w = Some (Inr (), w1)"
      and "call (StartProcessGroup ''run_signals'') w1 = Some (Inr v, w2)"
      and "wait_for_process ''run_signals'' run_proc_count ''RUNNING'' w2 = Some (Inr (), w3)"
      and "call (StartProcess ''autoscaler'') w3 = Some (Inr v', w4)"
      and "steady_state_loop w4 = Some (res, w')"
  using assms unfolding run_try_def seq_def
  by (auto split: option.splits sum.splits prod.splits)

lemma stage_order_quiet:
  "list_all quiet tr \<Longrightarrow> stage_order fetch_proc_count run_proc_count tr"
  by (simp add: stage_order_def quiet_no_commands)

lemma stage_order_started:
  assumes "list_all quiet A" and "list_all quiet B"
  shows "stage_order fetch_proc_count run_proc_count
     (A @ poll_events ''fetch_signals'' (range_py fetch_proc_count)
            (replicate (nat fetch_proc_count) ''EXITED'') @
      Called (StartProcessGroup ''run_signals'') out # B)"
proof -
  let ?pF = "poll_events ''fetch_signals'' (range_py fetch_proc_count)
            (replicate (nat fetch_proc_count) ''EXITED'')"
  let ?tr = "A @ ?pF @ Called (StartProcessGroup ''run_signals'') out # B"
  have 1: "calls (StartProcessGroup ''run_signals'') ?tr = 1"
    using assms by (simp add: quiet_no_commands)
  have 2: "calls (StartProcess ''autoscaler'') ?tr = 0"
    using assms by (simp add: quiet_no_commands)
  have 3: "\<exists>pre out' post. ?tr = pre @ ?pF @ Called (StartProcessGroup ''run_signals'') out' # post \<and>
           list_all quiet pre"
    using assms(1) by blast
  from 1 2 3 show ?thesis
    unfolding stage_order_def by simp
qed

lemma stage_order_full:
  assumes "list_all quiet A" and "list_all quiet B" and "list_all quiet C"
  shows "stage_order fetch_proc_count run_proc_count
     (A @ poll_events ''fetch_signals'' (range_py fetch_proc_count)
            (replicate (nat fetch_proc_count) ''EXITED'') @
      Called (StartProcessGroup ''run_signals'') (Returns v) # B @
      poll_events ''run_signals'' (range_py run_proc_count)
        (replicate (nat run_proc_count) ''RUNNING'') @
      Called (StartProcess ''autoscaler'') out # C)"
proof -
  let ?pF = "poll_events ''fetch_signals'' (range_py fetch_proc_count)
            (replicate (nat fetch_proc_count) ''EXITED'')"
  let ?pR = "poll_events ''run_signals'' (range_py run_proc_count)
        (replicate (nat run_proc_count) ''RUNNING'')"
  let ?post = "B @ ?pR @ Called (StartProcess ''autoscaler'') out # C"
  let ?tr = "A @ ?pF @ Called (StartProcessGroup ''run_signals'') (Returns v) # ?post"
  have 1: "calls (StartProcessGroup ''run_signals'') ?tr = 1"
    using assms by (simp add: quiet_no_commands)
  have 2: "calls (StartProcess ''autoscaler'') ?tr = 1"
    using assms by (simp add: quiet_no_commands)
  have 3: "\<exists>pre out' post. ?tr = pre @ ?pF @ Called (StartProcessGroup ''run_signals'') out' # post \<and>
           list_all quiet pre"
    using assms(1) by blast
  have "?tr = A @ ?pF @ Called (StartProcessGroup ''run_signals'') (Returns v) # B @ ?pR @
           Called (StartProcess ''autoscaler'') out # C \<and> list_all quiet A \<and> list_all quiet B"
    using assms by simp
  then have 4: "\<exists>pre v' mid out' post.
      ?tr = pre @ ?pF @ Called (StartProcessGroup ''run_signals'') (Returns v') # mid @ ?pR @
           Called (StartProcess ''autoscaler'') out' # post \<and> list_all quiet pre \<and> list_all quiet mid"
    by blast
  from 1 2 3 4 show ?thesis
    unfolding stage_order_def by simp
qed

lemma stage_order_extend:
  assumes "stage_order fetch_proc_count run_proc_count tr" and "list_all quiet pre0"
    and "calls (StartProcessGroup ''run_signals'') tail = 0"
    and "calls (StartProcess ''autoscaler'') tail = 0"
  shows "stage_order fetch_proc_count run_proc_count (pre0 @ tr @ tail)"
proof -
  let ?pF = "poll_events ''fetch_signals'' (range_py fetch_proc_count)
            (replicate (nat fetch_proc_count) ''EXITED'')"
  let ?pR = "poll_events ''run_signals'' (range_py run_proc_count)
        (replicate (nat run_proc_count) ''RUNNING'')"
  have c1: "calls (StartProcessGroup ''run_signals'') (pre0 @ tr @ tail) =
            calls (StartProcessGroup ''run_signals'') tr"
    and c2: "calls (StartProcess ''autoscaler'') (pre0 @ tr @ tail) =
            calls (StartProcess ''autoscaler'') tr"
    using assms(2,3,4) by (simp_all add: quiet_no_commands)
  have 3: "\<exists>pre out post. pre0 @ tr @ tail =
              pre @ ?pF @ Called (StartProcessGroup ''run_signals'') out # post \<and> list_all quiet pre"
    if "calls (StartProcessGroup ''run_signals'') tr = 1"
  proof -
    from assms(1) that obtain pre out post where
      "tr = pre @ ?pF @ Called (StartProcessGroup ''run_signals'') out # post" "list_all quiet pre"
      unfolding stage_order_def by blast
    with assms(2) have "pre0 @ tr @ tail =
        (pre0 @ pre) @ ?pF @ Called (StartProcessGroup ''run_signals'') out # (post @ tail) \<and>
        list_all quiet (pre0 @ pre)"
      by simp
    then show ?thesis by blast
  qed
  have 4: "\<exists>pre v mid out post. pre0 @ tr @ tail =
              pre @ ?pF @ Called (StartProcessGroup ''run_signals'') (Returns v) # mid @ ?pR @
              Called (StartProcess ''autoscaler'') out # post \<and>
              list_all quiet pre \<and> list_all quiet mid"
    if "calls (StartProcess ''autoscaler'') tr = 1"
  proof -
    from assms(1) that obtain pre v mid out post where
      "tr = pre @ ?pF @ Called (StartProcessGroup ''run_signals'') (Returns v) # mid @ ?pR @
              Called (StartProcess ''autoscaler'') out # post"
      "list_all quiet pre" "list_all quiet mid"
      unfolding stage_order_def by blast
    with assms(2) have "pre0 @ tr @ tail =
        (pre0 @ pre) @ ?pF @ Called (StartProcessGroup ''run_signals'') (Returns v) # mid @ ?pR @
              Called (StartProcess ''autoscaler'') out # (post @ tail) \<and>
        list_all quiet (pre0 @ pre) \<and> list_all quiet mid"
      by simp
    then show ?thesis by blast
  qed
  from assms(1) have "calls (StartProcessGroup ''run_signals'') tr \<le> 1"
    "calls (StartProcess ''autoscaler'') tr \<le> 1"
    unfolding stage_order_def by simp_all
  with 3 4 show ?thesis
    unfolding stage_order_def c1 c2 by blast
qed

lemma run_try_history:
  assumes "run_try fetch_proc_count run_proc_count w = Some (res, w')"
  shows "\<exists>tr. trace w' = trace w @ tr \<and> stage_order fetch_proc_count run_proc_count tr \<and>
     calls Shutdown tr = 0 \<and> calls ProcWait tr = 0"
  using assms
proof (cases rule: run_try_cases)
  case (fetch_raised e)
  from wait_for_process_quiet [OF fetch_raised(1)] obtain tr where
    "trace w' = trace w @ tr" "list_all quiet tr" by blast
  then show ?thesis
    by (intro exI [of _ tr]) (simp add: stage_order_quiet quiet_no_commands)
next
  case (start_group_raised w1 e)
  let ?pF = "poll_events ''fetch_signals'' (range_py fetch_proc_count)
          (replicate (nat fetch_proc_count) ''EXITED'')"
  from wait_for_process_success_shape [OF start_group_raised(1)] obtain A where
    A: "trace w1 = trace w @ A @ ?pF" "list_all quiet A"
    by blast
  from call_Inl_trace [OF start_group_raised(2)] obtain x where
    "trace w' = trace w1 @ [Called (StartProcessGroup ''run_signals'') (Raises x)]"
    by blast
  with A have "trace w' = trace w @ A @ ?pF @ Called (StartProcessGroup ''run_signals'') (Raises x) # []"
    by simp
  moreover have "stage_order fetch_proc_count run_proc_count
      (A @ ?pF @ Called (StartProcessGroup ''run_signals'') (Raises x) # [])"
    using A(2) by (intro stage_order_started) simp_all
  moreover have "calls Shutdown (A @ ?pF @ Called (StartProcessGroup ''run_signals'') (Raises x) # []) = 0"
    "calls ProcWait (A @ ?pF @ Called (StartProcessGroup ''run_signals'') (Raises x) # []) = 0"
    using A(2) by (simp_all add: quiet_no_commands)
  ultimately show ?thesis by blast
next
  case (run_raised w1 v w2 e)
  let ?pF = "poll_events ''fetch_signals'' (range_py fetch_proc_count)
          (replicate (nat fetch_proc_count) ''EXITED'')"
  from wait_for_process_success_shape [OF run_raised(1)] obtain A where
    A: "trace w1 = trace w @ A @ ?pF" "list_all quiet A"
    by blast
  from wait_for_process_quiet [OF run_raised(3)] obtain B where
    B: "trace w' = trace w2 @ B" "list_all quiet B" by blast
  from A B call_Inr_trace [OF run_raised(2)]
  have "trace w' = trace w @ A @ ?pF @ Called (StartProcessGroup ''run_signals'') (Returns v) # B"
    by simp
  moreover have "stage_order fetch_proc_count run_proc_count
      (A @ ?pF @ Called (StartProcessGroup ''run_signals'') (Returns v) # B)"
    using A(2) B(2) by (rule stage_order_started)
  moreover have "calls Shutdown (A @ ?pF @ Called (StartProcessGroup ''run_signals'') (Returns v) # B) = 0"
    "calls ProcWait (A @ ?pF @ Called (StartProcessGroup ''run_signals'') (Returns v) # B) = 0"
    using A(2) B(2) by (simp_all add: quiet_no_commands)
  ultimately show ?thesis by blast
next
  case (start_raised w1 v w2 w3 e)
  let ?pF = "poll_events ''fetch_signals'' (range_py fetch_proc_count)
          (replicate (nat fetch_proc_count) ''EXITED'')"
  let ?pR = "poll_events ''run_signals'' (range_py run_proc_count)
          (replicate (nat run_proc_count) ''RUNNING'')"
  from wait_for_process_success_shape [OF start_raised(1)] obtain A where
    A: "trace w1 = trace w @ A @ ?pF" "list_all quiet A"
    by blast
  from wait_for_process_success_shape [OF start_raised(3)] obtain B where
    B: "trace w3 = trace w2 @ B @ ?pR" "list_all quiet B"
    by blast
  from call_Inl_trace [OF start_raised(4)] obtain x where
    "trace w' = trace w3 @ [Called (StartProcess ''autoscaler'') (Raises x)]"
    by blast
  with A B call_Inr_trace [OF start_raised(2)]
  have "trace w' = trace w @ A @ ?pF @ Called (StartProcessGroup ''run_signals'') (Returns v) # B @
          ?pR @ Called (StartProcess ''autoscaler'') (Raises x) # []"
    by simp
  moreover have "stage_order fetch_proc_count run_proc_count
      (A @ ?pF @ Called (StartProcessGroup ''run_signals'') (Returns v) # B @
          ?pR @ Called (StartProcess ''autoscaler'') (Raises x) # [])"
    using A(2) B(2) by (intro stage_order_full) simp_all
  moreover have "calls Shutdown (A @ ?pF @ Called (StartProcessGroup ''run_signals'') (Returns v) # B @
          ?pR @ Called (StartProcess ''autoscaler'') (Raises x) # []) = 0"
    "calls ProcWait (A @ ?pF @ Called (StartProcessGroup ''run_signals'') (Returns v) # B @
          ?pR @ Called (StartProcess ''autoscaler'') (Raises x) # []) = 0"
    using A(2) B(2) by (simp_all add: quiet_no_commands)
  ultimately show ?thesis by blast
next
  case (monitoring w1 v w2 w3 v' w4)
  let ?pF = "poll_events ''fetch_signals'' (range_py fetch_proc_count)
          (replicate (nat fetch_proc_count) ''EXITED'')"
  let ?pR = "poll_events ''run_signals'' (range_py run_proc_count)
          (replicate (nat run_proc_count) ''RUNNING'')"
  from wait_for_process_success_shape [OF monitoring(1)] obtain A where
    A: "trace w1 = trace w @ A @ ?pF" "list_all quiet A"
    by blast
  from wait_for_process_success_shape [OF monitoring(3)] obtain B where
    B: "trace w3 = trace w2 @ B @ ?pR" "list_all quiet B"
    by blast
  from steady_state_loop_quiet [OF monitoring(5)] obtain C where
    C: "trace w' = trace w4 @ C" "list_all quiet C" by blast
  from A B C call_Inr_trace [OF monitoring(2)] call_Inr_trace [OF monitoring(4)]
  have "trace w' = trace w @ A @ ?pF @ Called (StartProcessGroup ''run_signals'') (Returns v) # B @
          ?pR @ Called (StartProcess ''autoscaler'') (Returns v') # C"
    by simp
  moreover have "stage_order fetch_proc_count run_proc_count
      (A @ ?pF @ Called (StartProcessGroup ''run_signals'') (Returns v) # B @
          ?pR @ Called (StartProcess ''autoscaler'') (Returns v') # C)"
    using A(2) B(2) C(2) by (rule stage_order_full)
  moreover have "calls Shutdown (A @ ?pF @ Called (StartProcessGroup ''run_signals'') (Returns v) # B @
          ?pR @ Called (StartProcess ''autoscaler'') (Returns v') # C) = 0"
    "calls ProcWait (A @ ?pF @ Called (StartProcessGroup ''run_signals'') (Returns v) # B @
          ?pR @ Called (StartProcess ''autoscaler'') (Returns v') # C) = 0"
    using A(2) B(2) C(2) by (simp_all add: quiet_no_commands)
  ultimately show ?thesis by blast
qed

lemma run_with_rpc_cases:
  assumes "run_with_rpc fetch_proc_count run_proc_count w = Some (res, w')"
  obtains
    (handler_ran) "run_try fetch_proc_count run_proc_count w =
        Some (Inl (External KeyboardInterrupt), w')" and "res = Inr ()"
  | (cleanup_raised) r1 w1 e where "run_try fetch_proc_count run_proc_count w = Some (r1, w1)"
      and "r1 \<noteq> Inl (External KeyboardInterrupt)"
      and "call Shutdown w1 = Some (Inl e, w')" and "res = Inl e"
  | (cleanup_returned) w1 v where "run_try fetch_proc_count run_proc_count w = Some (res, w1)"
      and "res \<noteq> Inl (External KeyboardInterrupt)"
      and "call Shutdown w1 = Some (Inr v, w')"
  using assms unfolding run_with_rpc_def Let_def
  by (auto split: option.splits sum.splits prod.splits if_splits)

lemma run_cases:
  assumes "run fetch_proc_count run_proc_count w = Some (res, w')"
  obtains
    (sleep_raised) e where "call (Sleep 1) (emit Popen w) = Some (Inl e, w')" and "res = Inl e"
  | (block_raised) v w1 e where "call (Sleep 1) (emit Popen w) = Some (Inr v, w1)"
      and "run_with_rpc fetch_proc_count run_proc_count w1 = Some (Inl e, w')" and "res = Inl e"
  | (wait_raised) v w1 w2 e where "call (Sleep 1) (emit Popen w) = Some (Inr v, w1)"
      and "run_with_rpc fetch_proc_count run_proc_count w1 = Some (Inr (), w2)"
      and "call ProcWait (emit (LogInfo ''Shutting down...'') w2) = Some (Inl e, w')"
      and "res = Inl e"
  | (returned) v w1 w2 v' where "call (Sleep 1) (emit Popen w) = Some (Inr v, w1)"
      and "run_with_rpc fetch_proc_count run_proc_count w1 = Some (Inr (), w2)"
      and "call ProcWait (emit (LogInfo ''Shutting down...'') w2) = Some (Inr v', w')"
      and "res = Inr ()"
  using assms unfolding run_def seq_def ret_def
  by (auto split: option.splits sum.splits prod.splits)

text \<open>The ways through \<^verbatim>\<open>run\<close>, each with its history.\<close>

lemma run_paths:
  assumes "run fetch_proc_count run_proc_count w = Some (res, w')"
  obtains
    (sleep_raised) x where
      "call (Sleep 1) (emit Popen w) = Some (Inl (External x), w')"
      and "trace w' = trace w @ [Popen, Called (Sleep 1) (Raises x)]"
      and "res = Inl (External x)"
  | (interrupted) v w1 w2 tr out where
      "call (Sleep 1) (emit Popen w) = Some (Inr v, w1)"
      and "run_try fetch_proc_count run_proc_count w1 =
             Some (Inl (External KeyboardInterrupt), w2)"
      and "stage_order fetch_proc_count run_proc_count tr"
      and "calls Shutdown tr = 0" and "calls ProcWait tr = 0"
      and "trace w' = trace w @ Popen # Called (Sleep 1) (Returns v) # tr @
             [LogInfo ''Shutting down...'', Called ProcWait out]"
      and "res = (case out of Returns v' \<Rightarrow> Inr () | Raises x \<Rightarrow> Inl (External x))"
      and "trace w2 = trace w1 @ tr"
  | (shutdown_raised) v w1 r1 w2 tr x where
      "call (Sleep 1) (emit Popen w) = Some (Inr v, w1)"
      and "run_try fetch_proc_count run_proc_count w1 = Some (r1, w2)"
      and "r1 \<noteq> Inl (External KeyboardInterrupt)"
      and "stage_order fetch_proc_count run_proc_count tr"
      and "calls Shutdown tr = 0" and "calls ProcWait tr = 0"
      and "trace w' = trace w @ Popen # Called (Sleep 1) (Returns v) # tr @
             [Called Shutdown (Raises x)]"
      and "res = Inl (External x)"
      and "trace w2 = trace w1 @ tr"
  | (failed) v w1 e w2 tr v' where
      "call (Sleep 1) (emit Popen w) = Some (Inr v, w1)"
      and "run_try fetch_proc_count run_proc_count w1 = Some (Inl e, w2)"
      and "e \<noteq> External KeyboardInterrupt"
      and "stage_order fetch_proc_count run_proc_count tr"
      and "calls Shutdown tr = 0" and "calls ProcWait tr = 0"
      and "trace w' = trace w @ Popen # Called (Sleep 1) (Returns v) # tr @
             [Called Shutdown (Returns v')]"
      and "res = Inl e"
      and "trace w2 = trace w1 @ tr"
  | (completed) v w1 w2 tr v' out where
      "call (Sleep 1) (emit Popen w) = Some (Inr v, w1)"
      and "run_try fetch_proc_count run_proc_count w1 = Some (Inr (), w2)"
      and "stage_order fetch_proc_count run_proc_count tr"
      and "calls Shutdown tr = 0" and "calls ProcWait tr = 0"
      and "trace w' = trace w @ Popen # Called (Sleep 1) (Returns v) # tr @
             [Called Shutdown (Returns v'), LogInfo ''Shutting down...'', Called ProcWait out]"
      and "res = (case out of Returns v' \<Rightarrow> Inr () | Raises x \<Rightarrow> Inl (External x))"
      and "trace w2 = trace w1 @ tr"
proof -
  consider
    (a) e where "call (Sleep 1) (emit Popen w) = Some (Inl e, w')" "res = Inl e"
  | (b) v w1 e where "call (Sleep 1) (emit Popen w) = Some (Inr v, w1)"
      "run_with_rpc fetch_proc_count run_proc_count w1 = Some (Inl e, w')" "res = Inl e"
  | (c) v w1 w2 r where "call (Sleep 1) (emit Popen w) = Some (Inr v, w1)"
      "run_with_rpc fetch_proc_count run_proc_count w1 = Some (Inr (), w2)"
      "call ProcWait (emit (LogInfo ''Shutting down...'') w2) = Some (r, w')"
      "res = (case r of Inl e \<Rightarrow> Inl e | Inr v' \<Rightarrow> Inr ())"
    using assms by (cases rule: run_cases) auto
  then show thesis
  proof cases
    case a
    from call_Inl_trace [OF a(1)] obtain x where
      "e = External x" "trace w' = trace (emit Popen w) @ [Called (Sleep 1) (Raises x)]"
      by blast
    with a show ?thesis
      by (auto simp: emit_def intro: sleep_raised)
  next
    case b
    from call_Inr_trace [OF b(1)]
    have t1: "trace w1 = trace w @ [Popen, Called (Sleep 1) (Returns v)]"
      by (simp add: emit_def)
    from b(2) show ?thesis
    proof (cases rule: run_with_rpc_cases)
      case handler_ran
      then show ?thesis by simp
    next
      case (cleanup_raised r1 w2 e')
      from run_try_history [OF cleanup_raised(1)] obtain tr where
        tr: "trace w2 = trace w1 @ tr" "stage_order fetch_proc_count run_proc_count tr"
          "calls Shutdown tr = 0" "calls ProcWait tr = 0"
        by blast
      from call_Inl_trace [OF cleanup_raised(3)] obtain x where
        x: "e' = External x" "trace w' = trace w2 @ [Called Shutdown (Raises x)]"
        by blast
      from t1 tr(1) x(2) have "trace w' = trace w @ Popen # Called (Sleep 1) (Returns v) # tr @
             [Called Shutdown (Raises x)]"
        by simp
      moreover from b(3) cleanup_raised(4) x(1) have "res = Inl (External x)" by simp
      ultimately show ?thesis
        using b(1) cleanup_raised(1,2) tr
        by (auto intro: shutdown_raised)
    next
      case (cleanup_returned w2 v')
      from run_try_history [OF cleanup_returned(1)] obtain tr where
        tr: "trace w2 = trace w1 @ tr" "stage_order fetch_proc_count run_proc_count tr"
          "calls Shutdown tr = 0" "calls ProcWait tr = 0"
        by blast
      from t1 tr(1) call_Inr_trace [OF cleanup_returned(3)]
      have "trace w' = trace w @ Popen # Called (Sleep 1) (Returns v) # tr @
             [Called Shutdown (Returns v')]"
        by simp
      moreover from cleanup_returned(2) have "e \<noteq> External KeyboardInterrupt" by auto
      ultimately show ?thesis
        using b(1,3) cleanup_returned(1) tr
        by (auto intro: failed)
    qed
  next
    case c
    from call_Inr_trace [OF c(1)]
    have t1: "trace w1 = trace w @ [Popen, Called (Sleep 1) (Returns v)]"
      by (simp add: emit_def)
    from call_out [OF c(3)] obtain out where
      out: "trace w' = trace w2 @ [LogInfo ''Shutting down...'', Called ProcWait out]"
        "r = (case out of Returns v \<Rightarrow> Inr v | Raises x \<Rightarrow> Inl (External x))"
      by (auto simp: emit_def)
    from out(2) c(4) have
      res: "res = (case out of Returns v' \<Rightarrow> Inr () | Raises x \<Rightarrow> Inl (External x))"
      by (cases out) auto
    from c(2) show ?thesis
    proof (cases rule: run_with_rpc_cases)
      case handler_ran
      from run_try_history [OF handler_ran(1)] obtain tr where
        tr: "trace w2 = trace w1 @ tr" "stage_order fetch_proc_count run_proc_count tr"
          "calls Shutdown tr = 0" "calls ProcWait tr = 0"
        by blast
      from t1 tr(1) out(1)
      have "trace w' = trace w @ Popen # Called (Sleep 1) (Returns v) # tr @
             [LogInfo ''Shutting down...'', Called ProcWait out]"
        by simp
      with c(1) handler_ran(1) tr res show ?thesis
        by (auto intro: interrupted)
    next
      case (cleanup_raised r1 w1' e')
      then show ?thesis by simp
    next
      case (cleanup_returned w3 v')
      from run_try_history [OF cleanup_returned(1)] obtain tr where
        tr: "trace w3 = trace w1 @ tr" "stage_order fetch_proc_count run_proc_count tr"
          "calls Shutdown tr = 0" "calls ProcWait tr = 0"
        by blast
      from t1 tr(1) out(1) call_Inr_trace [OF cleanup_returned(3)]
      have "trace w' = trace w @ Popen # Called (Sleep 1) (Returns v) # tr @
             [Called Shutdown (Returns v'), LogInfo ''Shutting down...'', Called ProcWait out]"
        by simp
      with c(1) cleanup_returned(1) tr res show ?thesis
        by (auto intro: completed)
    qed
  qed
qed

subsection \<open>Exceptions in the history of the guarded block\<close>

lemma call_handled:
  assumes "call p w = Some (r, w')" and "\<And>x. \<not> absorbable p x"
  shows "\<exists>tr. trace w' = trace w @ tr \<and>
     handled (case r of Inl e \<Rightarrow> Inl e | Inr v \<Rightarrow> Inr ()) tr"
proof -
  from call_out [OF assms(1)] obtain out where
    out: "trace w' = trace w @ [Called p out]"
      "r = (case out of Returns v \<Rightarrow> Inr v | Raises x \<Rightarrow> Inl (External x))"
    by blast
  have "handled (case r of Inl e \<Rightarrow> Inl e | Inr v \<Rightarrow> Inr ()) [Called p out]"
    using out(2) assms(2) by (cases out) (simp_all add: handled_Returns)
  with out(1) show ?thesis by blast
qed

lemma handled_seq:
  assumes "\<exists>tr. trace w1 = trace w @ tr \<and> handled (Inr ()) tr"
    and "\<exists>tr. trace w' = trace w1 @ tr \<and> handled res tr"
  shows "\<exists>tr. trace w' = trace w @ tr \<and> handled res tr"
proof -
  from assms obtain tr1 tr2 where "trace w1 = trace w @ tr1" "handled (Inr ()) tr1"
    "trace w' = trace w1 @ tr2" "handled res tr2"
    by blast
  then have "trace w' = trace w @ tr1 @ tr2 \<and> handled res (tr1 @ tr2)"
    by (simp add: handled_append)
  then show ?thesis by blast
qed

lemma steady_state_loop_handled:
  "steady_state_loop w = Some (res, w') \<Longrightarrow> \<exists>tr. trace w' = trace w @ tr \<and> handled res tr"
proof (induction w rule: steady_state_loop.induct)
  case (1 w)
  have na: "\<not> absorbable (GetProcessInfo ''autoscaler'') x" "\<not> absorbable (Sleep 5) x" for x
    by (simp_all add: absorbable_iff)
  from "1.prems" show ?case
  proof (cases rule: steady_step_cases)
    case (stopped bs)
    then have "trace w' = trace w @ [] \<and> handled res []" by simp
    then show ?thesis by blast
  next
    case (query_done bs r)
    from call_handled [OF query_done(2) na(1)] query_done(3)
    show ?thesis by (cases r) auto
  next
    case (sleep_raises bs statename w2 e)
    from call_handled [OF sleep_raises(2) na(1)]
    have "\<exists>tr. trace w2 = trace w @ tr \<and> handled (Inr ()) tr" by simp
    moreover from call_handled [OF sleep_raises(4) na(2)] sleep_raises(5)
    have "\<exists>tr. trace w' = trace w2 @ tr \<and> handled res tr" by simp
    ultimately show ?thesis by (rule handled_seq)
  next
    case (again bs statename w2 v w3)
    have rr: "read_running w = Some (True, w\<lparr>running := bs\<rparr>)"
      using again(1) by (simp add: read_running_def)
    from call_handled [OF again(2) na(1)]
    have "\<exists>tr. trace w2 = trace w @ tr \<and> handled (Inr ()) tr" by simp
    moreover from call_handled [OF again(4) na(2)]
    have "\<exists>tr. trace w3 = trace w2 @ tr \<and> handled (Inr ()) tr" by simp
    ultimately have "\<exists>tr. trace w3 = trace w @ tr \<and> handled (Inr ()) tr"
      by (rule handled_seq)
    moreover from "1.IH" [OF rr refl _ again(2) refl refl again(3) again(4) refl refl again(5)]
    have "\<exists>tr. trace w' = trace w3 @ tr \<and> handled res tr" by simp
    ultimately show ?thesis by (rule handled_seq)
  qed
qed

lemma run_try_handled:
  assumes "run_try fetch_proc_count run_proc_count w = Some (res, w')"
  shows "\<exists>tr. trace w' = trace w @ tr \<and> handled res tr"
  using assms
proof (cases rule: run_try_cases)
  case (fetch_raised e)
  then show ?thesis by (auto dest: wait_for_process_handled)
next
  case (start_group_raised w1 e)
  have na: "\<not> absorbable (StartProcessGroup ''run_signals'') x" for x
    by (simp add: absorbable_iff)
  from wait_for_process_handled [OF start_group_raised(1)]
  have "\<exists>tr. trace w1 = trace w @ tr \<and> handled (Inr ()) tr" .
  moreover from call_handled [OF start_group_raised(2) na] start_group_raised(3)
  have "\<exists>tr. trace w' = trace w1 @ tr \<and> handled res tr" by simp
  ultimately show ?thesis by (rule handled_seq)
next
  case (run_raised w1 v w2 e)
  have na: "\<not> absorbable (StartProcessGroup ''run_signals'') x" for x
    by (simp add: absorbable_iff)
  from wait_for_process_handled [OF run_raised(1)]
  have "\<exists>tr. trace w1 = trace w @ tr \<and> handled (Inr ()) tr" .
  moreover from call_handled [OF run_raised(2) na]
  have "\<exists>tr. trace w2 = trace w1 @ tr \<and> handled (Inr ()) tr" by simp
  ultimately have "\<exists>tr. trace w2 = trace w @ tr \<and> handled (Inr ()) tr"
    by (rule handled_seq)
  moreover from wait_for_process_handled [OF run_raised(3)] run_raised(4)
  have "\<exists>tr. trace w' = trace w2 @ tr \<and> handled res tr" by simp
  ultimately show ?thesis by (rule handled_seq)
next
  case (start_raised w1 v w2 w3 e)
  have na: "\<not> absorbable (StartProcessGroup ''run_signals'') x"
    "\<not> absorbable (StartProcess ''autoscaler'') x" for x
    by (simp_all add: absorbable_iff)
  from wait_for_process_handled [OF start_raised(1)]
  have "\<exists>tr. trace w1 = trace w @ tr \<and> handled (Inr ()) tr" .
  moreover from call_handled [OF start_raised(2) na(1)]
  have "\<exists>tr. trace w2 = trace w1 @ tr \<and> handled (Inr ()) tr" by simp
  ultimately have "\<exists>tr. trace w2 = trace w @ tr \<and> handled (Inr ()) tr"
    by (rule handled_seq)
  moreover from wait_for_process_handled [OF start_raised(3)]
  have "\<exists>tr. trace w3 = trace w2 @ tr \<and> handled (Inr ()) tr" .
  ultimately have "\<exists>tr. trace w3 = trace w @ tr \<and> handled (Inr ()) tr"
    by (rule handled_seq)
  moreover from call_handled [OF start_raised(4) na(2)] start_raised(5)
  have "\<exists>tr. trace w' = trace w3 @ tr \<and> handled res tr" by simp
  ultimately show ?thesis by (rule handled_seq)
next
  case (monitoring w1 v w2 w3 v' w4)
  have na: "\<not> absorbable (StartProcessGroup ''run_signals'') x"
    "\<not> absorbable (StartProcess ''autoscaler'') x" for x
    by (simp_all add: absorbable_iff)
  from wait_for_process_handled [OF monitoring(1)]
  have "\<exists>tr. trace w1 = trace w @ tr \<and> handled (Inr ()) tr" .
  moreover from call_handled [OF monitoring(2) na(1)]
  have "\<exists>tr. trace w2 = trace w1 @ tr \<and> handled (Inr ()) tr" by simp
  ultimately have "\<exists>tr. trace w2 = trace w @ tr \<and> handled (Inr ()) tr"
    by (rule handled_seq)
  moreover from wait_for_process_handled [OF monitoring(3)]
  have "\<exists>tr. trace w3 = trace w2 @ tr \<and> handled (Inr ()) tr" .
  ultimately have "\<exists>tr. trace w3 = trace w @ tr \<and> handled (Inr ()) tr"
    by (rule handled_seq)
  moreover from call_handled [OF monitoring(4) na(2)]
  have "\<exists>tr. trace w4 = trace w3 @ tr \<and> handled (Inr ()) tr" by simp
  ultimately have "\<exists>tr. trace w4 = trace w @ tr \<and> handled (Inr ()) tr"
    by (rule handled_seq)
  moreover from steady_state_loop_handled [OF monitoring(5)]
  have "\<exists>tr. trace w' = trace w4 @ tr \<and> handled res tr" .
  ultimately show ?thesis by (rule handled_seq)
qed

lemma split_after:
  "a @ tr = pre @ ev # post \<Longrightarrow> ev \<notin> set a \<Longrightarrow> \<exists>pre'. pre = a @ pre' \<and> tr = pre' @ ev # post"
proof (induction a arbitrary: pre)
  case Nil
  then show ?case by simp
next
  case (Cons x a)
  then show ?case by (cases pre) auto
qed

lemma split_before:
  "tr @ b = pre @ ev # post \<Longrightarrow> ev \<notin> set b \<Longrightarrow> \<exists>post'. tr = pre @ ev # post' \<and> post = post' @ b"
proof (induction tr arbitrary: pre)
  case Nil
  then have "ev \<in> set b" by (metis in_set_conv_decomp append_Nil)
  with Nil show ?case by simp
next
  case (Cons x tr)
  then show ?case by (cases pre) auto
qed

lemma split_middle:
  assumes "a @ tr @ b = pre @ ev # post" and "ev \<notin> set a" and "ev \<notin> set b"
  shows "\<exists>pre' post'. tr = pre' @ ev # post' \<and> pre = a @ pre' \<and> post = post' @ b"
proof -
  from split_after [OF assms(1,2)] obtain pre' where
    "pre = a @ pre'" "tr @ b = pre' @ ev # post" by blast
  with split_before [OF this(2) assms(3)] show ?thesis by blast
qed

lemma raise_located:
  assumes "Popen # Called (Sleep 1) (Returns v) # tr @ tail = pre @ Called p (Raises x) # post"
    and "Called p (Raises x) \<notin> set tail" and "handled r1 tr"
  shows "\<exists>post'. post = post' @ tail \<and>
     (if absorbable p x then absorbed post' else post' = [] \<and> r1 = Inl (External x))"
proof -
  from assms(1) have "[Popen, Called (Sleep 1) (Returns v)] @ tr @ tail =
      pre @ Called p (Raises x) # post"
    by simp
  from split_middle [OF this _ assms(2)] obtain pre' post' where
    "tr = pre' @ Called p (Raises x) # post'" "post = post' @ tail"
    by auto
  with handled_at [of r1 pre' p x post'] assms(3) show ?thesis by blast
qed

lemma absorbed_in_run:
  assumes "Popen # Called (Sleep 1) (Returns v) # tr @ tail =
      pre @ Called (GetProcessInfo q) (Raises OSError) # post"
    and "q \<noteq> ''autoscaler''" and "handled r1 tr"
    and "Called (GetProcessInfo q) (Raises OSError) \<notin> set tail"
  shows "\<exists>out post'. post = LogWarning # Called (Sleep 1) out # post' \<and>
     (\<forall>v. out = Returns v \<longrightarrow> (\<exists>q' out' post''. post' = Called (GetProcessInfo q') out' # post''))"
proof -
  from raise_located [OF assms(1,4,3)] assms(2) obtain post' where
    p: "post = post' @ tail" "absorbed post'"
    by auto
  from absorbedD [OF p(2)] obtain out post'' where
    o: "post' = LogWarning # Called (Sleep 1) out # post''"
      "\<forall>v. out = Returns v \<longrightarrow> starts_with_query post''"
    by blast
  have "\<exists>q' out' rest. post'' @ tail = Called (GetProcessInfo q') out' # rest"
    if "out = Returns v'" for v'
    using o(2) that by (auto dest!: starts_with_queryD)
  with p(1) o(1) show ?thesis by auto
qed

lemma surfaced_in_run:
  assumes "Popen # Called (Sleep 1) (Returns v) # tr @ tail = pre @ Called p (Raises OSError) # post"
    and "p = StartProcessGroup ''run_signals'' \<or> p = StartProcess ''autoscaler'' \<or>
         p = GetProcessInfo ''autoscaler''"
    and "handled r1 tr" and "Called p (Raises OSError) \<notin> set tail"
  shows "post = tail \<and> r1 = Inl (External OSError)"
proof -
  from assms(2) have "\<not> absorbable p OSError" by (auto simp: absorbable_iff)
  with raise_located [OF assms(1,4,3)] show ?thesis by auto
qed

lemma run_exceptions:
  assumes "run fetch_proc_count run_proc_count w = Some (res, w')"
  shows "\<exists>tr. trace w' = trace w @ tr \<and>
     (\<forall>pre q post. tr = pre @ Called (GetProcessInfo q) (Raises OSError) # post \<longrightarrow>
        q \<noteq> ''autoscaler'' \<longrightarrow>
        (\<exists>out post'. post = LogWarning # Called (Sleep 1) out # post' \<and>
           (\<forall>v. out = Returns v \<longrightarrow>
              (\<exists>q' out' post''. post' = Called (GetProcessInfo q') out' # post'')))) \<and>
     (\<forall>pre p post. tr = pre @ Called p (Raises OSError) # post \<longrightarrow>
        p = StartProcessGroup ''run_signals'' \<or> p = StartProcess ''autoscaler'' \<or>
        p = GetProcessInfo ''autoscaler'' \<longrightarrow>
        (\<exists>out. post = [Called Shutdown out] \<and>
           res = Inl (External (case out of Returns v \<Rightarrow> OSError | Raises x \<Rightarrow> x))))"
  (is "\<exists>tr. ?T tr \<and> ?A tr \<and> ?B tr")
  using assms
proof (cases rule: run_paths)
  case (sleep_raised x)
  let ?tr = "[Popen, Called (Sleep 1) (Raises x)]"
  have "?A ?tr" by (auto simp: Cons_eq_append_conv)
  moreover have "?B ?tr" by (auto simp: Cons_eq_append_conv)
  ultimately show ?thesis using sleep_raised(2) by blast
next
  case (interrupted v w1 w2 tr out)
  let ?tail = "[LogInfo ''Shutting down...'', Called ProcWait out]"
  let ?tr = "Popen # Called (Sleep 1) (Returns v) # tr @ ?tail"
  from run_try_handled [OF interrupted(2)] interrupted(8)
  have h: "handled (Inl (External KeyboardInterrupt)) tr" by auto
  have "?A ?tr"
    by (intro allI impI absorbed_in_run [OF _ _ h, where tail = ?tail]) auto
  moreover have "?B ?tr"
  proof (intro allI impI)
    fix pre p post
    assume "?tr = pre @ Called p (Raises OSError) # post"
      and p: "p = StartProcessGroup ''run_signals'' \<or> p = StartProcess ''autoscaler'' \<or>
        p = GetProcessInfo ''autoscaler''"
    from surfaced_in_run [OF this h] p
    show "\<exists>out. post = [Called Shutdown out] \<and>
           res = Inl (External (case out of Returns v \<Rightarrow> OSError | Raises x \<Rightarrow> x))"
      by auto
  qed
  ultimately show ?thesis using interrupted(6) by blast
next
  case (shutdown_raised v w1 r1 w2 tr x)
  let ?tail = "[Called Shutdown (Raises x)]"
  let ?tr = "Popen # Called (Sleep 1) (Returns v) # tr @ ?tail"
  from run_try_handled [OF shutdown_raised(2)] shutdown_raised(9)
  have h: "handled r1 tr" by auto
  have "?A ?tr"
    by (intro allI impI absorbed_in_run [OF _ _ h, where tail = ?tail]) auto
  moreover have "?B ?tr"
  proof (intro allI impI)
    fix pre p post
    assume "?tr = pre @ Called p (Raises OSError) # post"
      and p: "p = StartProcessGroup ''run_signals'' \<or> p = StartProcess ''autoscaler'' \<or>
        p = GetProcessInfo ''autoscaler''"
    from surfaced_in_run [OF this h] p shutdown_raised(8)
    show "\<exists>out. post = [Called Shutdown out] \<and>
           res = Inl (External (case out of Returns v \<Rightarrow> OSError | Raises x \<Rightarrow> x))"
      by auto
  qed
  ultimately show ?thesis using shutdown_raised(7) by blast
next
  case (failed v w1 e w2 tr v')
  let ?tail = "[Called Shutdown (Returns v')]"
  let ?tr = "Popen # Called (Sleep 1) (Returns v) # tr @ ?tail"
  from run_try_handled [OF failed(2)] failed(9)
  have h: "handled (Inl e) tr" by auto
  have "?A ?tr"
    by (intro allI impI absorbed_in_run [OF _ _ h, where tail = ?tail]) auto
  moreover have "?B ?tr"
  proof (intro allI impI)
    fix pre p post
    assume "?tr = pre @ Called p (Raises OSError) # post"
      and p: "p = StartProcessGroup ''run_signals'' \<or> p = StartProcess ''autoscaler'' \<or>
        p = GetProcessInfo ''autoscaler''"
    from surfaced_in_run [OF this h] p failed(8)
    show "\<exists>out. post = [Called Shutdown out] \<and>
           res = Inl (External (case out of Returns v \<Rightarrow> OSError | Raises x \<Rightarrow> x))"
      by auto
  qed
  ultimately show ?thesis using failed(7) by blast
next
  case (completed v w1 w2 tr v' out)
  let ?tail = "[Called Shutdown (Returns v'), LogInfo ''Shutting down...'', Called ProcWait out]"
  let ?tr = "Popen # Called (Sleep 1) (Returns v) # tr @ ?tail"
  from run_try_handled [OF completed(2)] completed(8)
  have h: "handled (Inr ()) tr" by auto
  have "?A ?tr"
    by (intro allI impI absorbed_in_run [OF _ _ h, where tail = ?tail]) auto
  moreover have "?B ?tr"
  proof (intro allI impI)
    fix pre p post
    assume "?tr = pre @ Called p (Raises OSError) # post"
      and p: "p = StartProcessGroup ''run_signals'' \<or> p = StartProcess ''autoscaler'' \<or>
        p = GetProcessInfo ''autoscaler''"
    from surfaced_in_run [OF this h] p
    show "\<exists>out. post = [Called Shutdown out] \<and>
           res = Inl (External (case out of Returns v \<Rightarrow> OSError | Raises x \<Rightarrow> x))"
      by auto
  qed
  ultimately show ?thesis using completed(6) by blast
qed

section \<open>Properties of \<^verbatim>\<open>run\<close>\<close>

text \<open>
  C4: in every run that ends (whatever its result), each of the two start commands is
  issued at most once. The start of the group \<^verbatim>\<open>run_signals\<close>, when it is issued, comes
  directly after a poll in which every instance of \<^verbatim>\<open>fetch_signals\<close> reported
  \<^verbatim>\<open>EXITED\<close> (the poll on which the first stage wait returns), and nothing but queries,
  sleeps and log lines comes before that poll. The start of the autoscaler, when it is
  issued, comes directly after a poll in which every instance of \<^verbatim>\<open>run_signals\<close>
  reported \<^verbatim>\<open>RUNNING\<close>; between the start of \<^verbatim>\<open>run_signals\<close>, which has returned, and
  that poll there are again only queries, sleeps and log lines.
\<close>

theorem stages_start_in_order:
  assumes "run fetch_proc_count run_proc_count w = Some (res, w')"
  shows "\<exists>tr. trace w' = trace w @ tr \<and>
     calls (StartProcessGroup ''run_signals'') tr \<le> 1 \<and>
     calls (StartProcess ''autoscaler'') tr \<le> 1 \<and>
     (calls (StartProcessGroup ''run_signals'') tr = 1 \<longrightarrow>
        (\<exists>pre out post.
           tr = pre @ poll_events ''fetch_signals'' (range_py fetch_proc_count)
                        (replicate (nat fetch_proc_count) ''EXITED'') @
                Called (StartProcessGroup ''run_signals'') out # post \<and>
           list_all quiet pre)) \<and>
     (calls (StartProcess ''autoscaler'') tr = 1 \<longrightarrow>
        (\<exists>pre v mid out post.
           tr = pre @ poll_events ''fetch_signals'' (range_py fetch_proc_count)
                        (replicate (nat fetch_proc_count) ''EXITED'') @
                Called (StartProcessGroup ''run_signals'') (Returns v) # mid @
                poll_events ''run_signals'' (range_py run_proc_count)
                  (replicate (nat run_proc_count) ''RUNNING'') @
                Called (StartProcess ''autoscaler'') out # post \<and>
           list_all quiet pre \<and> list_all quiet mid))"
proof -
  have "\<exists>tr. trace w' = trace w @ tr \<and> stage_order fetch_proc_count run_proc_count tr"
    using assms
  proof (cases rule: run_paths)
    case (sleep_raised x)
    have "list_all quiet [Popen, Called (Sleep 1) (Raises x)]" by simp
    then have "stage_order fetch_proc_count run_proc_count [Popen, Called (Sleep 1) (Raises x)]"
      by (rule stage_order_quiet)
    with sleep_raised(2) show ?thesis by blast
  next
    case (interrupted v w1 w2 tr out)
    from stage_order_extend [OF interrupted(3),
        of "[Popen, Called (Sleep 1) (Returns v)]"
           "[LogInfo ''Shutting down...'', Called ProcWait out]"] interrupted(6)
    show ?thesis by simp
  next
    case (shutdown_raised v w1 r1 w2 tr x)
    from stage_order_extend [OF shutdown_raised(4),
        of "[Popen, Called (Sleep 1) (Returns v)]" "[Called Shutdown (Raises x)]"]
      shutdown_raised(7)
    show ?thesis by simp
  next
    case (failed v w1 e w2 tr v')
    from stage_order_extend [OF failed(4),
        of "[Popen, Called (Sleep 1) (Returns v)]" "[Called Shutdown (Returns v')]"] failed(7)
    show ?thesis by simp
  next
    case (completed v w1 w2 tr v' out)
    from stage_order_extend [OF completed(3),
        of "[Popen, Called (Sleep 1) (Returns v)]"
           "[Called Shutdown (Returns v'), LogInfo ''Shutting down...'', Called ProcWait out]"]
      completed(6)
    show ?thesis by simp
  qed
  then show ?thesis unfolding stage_order_def .
qed

theorem stages_start_in_order_witness:
  "run 2 1
     \<lparr>trace = [],
      script = map Returns [''None'', ''EXITED'', ''EXITED'', ''True'', ''RUNNING'', ''True'',
                            ''EXITED'', ''True'', ''0''],
      running = [True]\<rparr> =
   Some (Inr (),
     \<lparr>trace = [Popen, Called (Sleep 1) (Returns ''None''),
               LogInfo ''waiting for fetch_signals to start'',
               Called (GetProcessInfo ''fetch_signals:fetch_signals_0'') (Returns ''EXITED''),
               Called (GetProcessInfo ''fetch_signals:fetch_signals_1'') (Returns ''EXITED''),
               Called (StartProcessGroup ''run_signals'') (Returns ''True''),
               LogInfo ''waiting for run_signals to start'',
               Called (GetProcessInfo ''run_signals:run_signals_0'') (Returns ''RUNNING''),
               Called (StartProcess ''autoscaler'') (Returns ''True''),
               Called (GetProcessInfo ''autoscaler'') (Returns ''EXITED''),
               Called Shutdown (Returns ''True''),
               LogInfo ''Shutting down...'',
               Called ProcWait (Returns ''0'')],
      script = [], running = []\<rparr>) \<and>
   (\<exists>pre out post.
      [Popen, Called (Sleep 1) (Returns ''None''),
       LogInfo ''waiting for fetch_signals to start'',
       Called (GetProcessInfo ''fetch_signals:fetch_signals_0'') (Returns ''EXITED''),
       Called (GetProcessInfo ''fetch_signals:fetch_signals_1'') (Returns ''EXITED''),
       Called (StartProcessGroup ''run_signals'') (Returns ''True''),
       LogInfo ''waiting for run_signals to start'',
       Called (GetProcessInfo ''run_signals:run_signals_0'') (Returns ''RUNNING''),
       Called (StartProcess ''autoscaler'') (Returns ''True''),
       Called (GetProcessInfo ''autoscaler'') (Returns ''EXITED''),
       Called Shutdown (Returns ''True''),
       LogInfo ''Shutting down...'',
       Called ProcWait (Returns ''0'')] =
      pre @ poll_events ''fetch_signals'' (range_py 2) (replicate (nat 2) ''EXITED'') @
      Called (StartProcessGroup ''run_signals'') out # post \<and> list_all quiet pre)"
proof -
  let ?w = "\<lparr>trace = [],
      script = map Returns [''None'', ''EXITED'', ''EXITED'', ''True'', ''RUNNING'', ''True'',
                            ''EXITED'', ''True'', ''0''],
      running = [True]\<rparr>"
  have r: "run 2 1 ?w =
   Some (Inr (),
     \<lparr>trace = [Popen, Called (Sleep 1) (Returns ''None''),
               LogInfo ''waiting for fetch_signals to start'',
               Called (GetProcessInfo ''fetch_signals:fetch_signals_0'') (Returns ''EXITED''),
               Called (GetProcessInfo ''fetch_signals:fetch_signals_1'') (Returns ''EXITED''),
               Called (StartProcessGroup ''run_signals'') (Returns ''True''),
               LogInfo ''waiting for run_signals to start'',
               Called (GetProcessInfo ''run_signals:run_signals_0'') (Returns ''RUNNING''),
               Called (StartProcess ''autoscaler'') (Returns ''True''),
               Called (GetProcessInfo ''autoscaler'') (Returns ''EXITED''),
               Called Shutdown (Returns ''True''),
               LogInfo ''Shutting down...'',
               Called ProcWait (Returns ''0'')],
      script = [], running = []\<rparr>)"
    by (simp add: run_def seq_def ret_def call_def emit_def run_with_rpc_def run_try_def
          wait_for_process_def wait_for_process_loop.simps steady_state_loop.simps
          read_running_def range_py_def proc_id_def str.simps SUPERVISORD_RUNNING_STATES_def
          upt_rec eval_nat_numeral)
  from stages_start_in_order [OF r] r show ?thesis by simp
qed

subsection \<open>Exceptions that leave \<^verbatim>\<open>run\<close>\<close>

lemma loop_OSError_from_sleep:
  "wait_for_process_loop process_name num_procs terminal_state w =
     Some (Inl (External OSError), w') \<Longrightarrow>
   \<exists>tr. trace w' = trace w @ tr @ [Called (Sleep 1) (Raises OSError)]"
proof (induction process_name num_procs terminal_state w rule: wait_for_process_loop.induct)
  case (1 process_name num_procs terminal_state w)
  from "1.prems" show ?case
  proof (cases rule: loop_step_cases)
    case (stop r)
    then show ?thesis by simp
  next
    case (sleep_raises r w1 e)
    from get_states_trace [OF sleep_raises(1)] obtain tr1 where t1: "trace w1 = trace w @ tr1"
      by blast
    from call_Inl_trace [OF sleep_raises(2)] sleep_raises(3) t1
    have "trace w' = trace w @ tr1 @ [Called (Sleep 1) (Raises OSError)] \<or>
          trace w' = trace w @ (tr1 @ [LogWarning]) @ [Called (Sleep 1) (Raises OSError)]"
      by (auto simp: emit_def split: if_splits)
    then show ?thesis by blast
  next
    case (retry_unreachable w1 v w2)
    from get_states_trace [OF retry_unreachable(1)] obtain tr1 where "trace w1 = trace w @ tr1"
      by blast
    moreover from call_Inr_trace [OF retry_unreachable(2)]
    have "trace w2 = trace w1 @ [LogWarning, Called (Sleep 1) (Returns v)]"
      by (simp add: emit_def)
    moreover from "1.IH"(1) [OF retry_unreachable(1) refl refl refl retry_unreachable(2) refl refl
        retry_unreachable(3)]
    obtain tr3 where "trace w' = trace w2 @ tr3 @ [Called (Sleep 1) (Raises OSError)]"
      by blast
    ultimately have "trace w' = trace w @
        (tr1 @ [LogWarning, Called (Sleep 1) (Returns v)] @ tr3) @
        [Called (Sleep 1) (Raises OSError)]"
      by simp
    then show ?thesis by blast
  next
    case (retry_pending ss w1 v w2)
    from get_states_trace [OF retry_pending(1)] obtain tr1 where "trace w1 = trace w @ tr1"
      by blast
    moreover from call_Inr_trace [OF retry_pending(4)]
    have "trace w2 = trace w1 @ [Called (Sleep 1) (Returns v)]" .
    moreover from "1.IH"(2) [OF retry_pending(1) refl refl retry_pending(2,3,4) refl refl
        retry_pending(5)]
    obtain tr3 where "trace w' = trace w2 @ tr3 @ [Called (Sleep 1) (Raises OSError)]"
      by blast
    ultimately have "trace w' = trace w @
        (tr1 @ [Called (Sleep 1) (Returns v)] @ tr3) @ [Called (Sleep 1) (Raises OSError)]"
      by simp
    then show ?thesis by blast
  qed
qed

lemma steady_state_loop_query_raises:
  assumes "running w = True # bs" and "script w = Raises x # rest"
  shows "steady_state_loop w =
     Some (Inl (External x),
           w\<lparr>trace := trace w @ [Called (GetProcessInfo ''autoscaler'') (Raises x)],
              script := rest, running := bs\<rparr>)"
  using assms
  by (subst steady_state_loop.simps) (simp add: read_running_def call_def)

lemma run_raises_after_shutdown:
  assumes "call (Sleep 1) (emit Popen w) = Some (Inr v, w1)"
    and "run_try fetch_proc_count run_proc_count w1 = Some (Inl e, w2)"
    and "e \<noteq> External KeyboardInterrupt"
    and "call Shutdown w2 = Some (Inr v', w3)"
  shows "run fetch_proc_count run_proc_count w = Some (Inl e, w3)"
  using assms by (simp add: run_def seq_def run_with_rpc_def)

lemma run_try_start_group_raises:
  assumes "wait_for_process ''fetch_signals'' fetch_proc_count ''EXITED'' w1 = Some (Inr (), w2)"
    and "script w2 = Raises x # rest"
  shows "run_try fetch_proc_count run_proc_count w1 =
     Some (Inl (External x),
           w2\<lparr>trace := trace w2 @ [Called (StartProcessGroup ''run_signals'') (Raises x)],
               script := rest\<rparr>)"
  using assms by (simp add: run_try_def seq_def call_def)

text \<open>
  C1, as stated, fails on the path of a fatal state: the only instance of
  \<^verbatim>\<open>fetch_signals\<close> reports \<^verbatim>\<open>FATAL\<close>, the stage wait raises, the \<^verbatim>\<open>finally\<close> clause
  calls \<^verbatim>\<open>shutdown\<close>, and the exception leaves \<^verbatim>\<open>run\<close>: the statement
  \<^verbatim>\<open>supervisord_proc.wait()\<close> stands after the \<^verbatim>\<open>with\<close> block and is not reached, so
  the exit of supervisord is awaited zero times.
\<close>

theorem fatal_stage_wait_skips_daemon_wait:
  "run 1 1 \<lparr>trace = [], script = map Returns [''None'', ''FATAL'', ''True''], running = []\<rparr> =
     Some (Inl (AutoscalerBootstrapException ''Process fetch_signals could not start; aborting''),
       \<lparr>trace = [Popen, Called (Sleep 1) (Returns ''None''),
                 LogInfo ''waiting for fetch_signals to start'',
                 Called (GetProcessInfo ''fetch_signals:fetch_signals_0'') (Returns ''FATAL''),
                 Called Shutdown (Returns ''True'')],
        script = [], running = []\<rparr>) \<and>
   calls ProcWait
     [Popen, Called (Sleep 1) (Returns ''None''),
      LogInfo ''waiting for fetch_signals to start'',
      Called (GetProcessInfo ''fetch_signals:fetch_signals_0'') (Returns ''FATAL''),
      Called Shutdown (Returns ''True'')] = 0"
  by (simp add: run_eval)

text \<open>
  C1, as amended: in every run that ends, the exit of supervisord is awaited at most once.
  When \<^verbatim>\<open>run\<close> returns normally (the steady-state loop was left and \<^verbatim>\<open>shutdown\<close>
  returned, or a \<open>KeyboardInterrupt\<close> was caught by the handler), it is awaited exactly
  once, and that wait is the last call of the run; the same holds whenever the block of
  the \<^verbatim>\<open>try\<close> statement was left by \<open>KeyboardInterrupt\<close>. When any other exception
  leaves that block, such as the \<^verbatim>\<open>AutoscalerBootstrapException\<close> of a stage wait, the
  exception leaves \<^verbatim>\<open>run\<close> after the one call of \<^verbatim>\<open>shutdown\<close>, and the exit of
  supervisord is not awaited.
\<close>

theorem daemon_awaited_when_run_returns:
  assumes "run fetch_proc_count run_proc_count w = Some (res, w')"
  shows "\<exists>tr. trace w' = trace w @ tr \<and> calls ProcWait tr \<le> 1 \<and>
     (res = Inr () \<longrightarrow>
        calls ProcWait tr = 1 \<and> (\<exists>v. last tr = Called ProcWait (Returns v))) \<and>
     (\<forall>v w1 w2. call (Sleep 1) (emit Popen w) = Some (Inr v, w1) \<longrightarrow>
        run_try fetch_proc_count run_proc_count w1 =
          Some (Inl (External KeyboardInterrupt), w2) \<longrightarrow>
        calls ProcWait tr = 1) \<and>
     (\<forall>v w1 e w2. call (Sleep 1) (emit Popen w) = Some (Inr v, w1) \<longrightarrow>
        run_try fetch_proc_count run_proc_count w1 = Some (Inl e, w2) \<longrightarrow>
        e \<noteq> External KeyboardInterrupt \<longrightarrow> calls ProcWait tr = 0) \<and>
     (\<forall>msg. res = Inl (AutoscalerBootstrapException msg) \<longrightarrow>
        calls ProcWait tr = 0 \<and> calls Shutdown tr = 1)"
  using assms
proof (cases rule: run_paths)
  case (sleep_raised x)
  show ?thesis
    by (rule exI [of _ "[Popen, Called (Sleep 1) (Raises x)]"])
       (use sleep_raised in auto)
next
  case (interrupted v w1 w2 tr out)
  show ?thesis
    by (rule exI [of _ "Popen # Called (Sleep 1) (Returns v) # tr @
             [LogInfo ''Shutting down...'', Called ProcWait out]"])
       (use interrupted in \<open>auto split: outcome.splits\<close>)
next
  case (shutdown_raised v w1 r1 w2 tr x)
  show ?thesis
    by (rule exI [of _ "Popen # Called (Sleep 1) (Returns v) # tr @ [Called Shutdown (Raises x)]"])
       (use shutdown_raised in auto)
next
  case (failed v w1 e w2 tr v')
  show ?thesis
    by (rule exI [of _ "Popen # Called (Sleep 1) (Returns v) # tr @
          [Called Shutdown (Returns v')]"])
       (use failed in auto)
next
  case (completed v w1 w2 tr v' out)
  show ?thesis
    by (rule exI [of _ "Popen # Called (Sleep 1) (Returns v) # tr @
          [Called Shutdown (Returns v'), LogInfo ''Shutting down...'', Called ProcWait out]"])
       (use completed in \<open>auto split: outcome.splits\<close>)
qed

theorem daemon_awaited_when_run_returns_witness:
  "run 1 1
     \<lparr>trace = [],
      script = [Returns ''None'', Returns ''EXITED'', Returns ''True'', Returns ''RUNNING'',
                Returns ''True'', Returns ''RUNNING'', Raises KeyboardInterrupt, Returns ''0''],
      running = [True]\<rparr> =
     Some (Inr (),
       \<lparr>trace = [Popen, Called (Sleep 1) (Returns ''None''),
                 LogInfo ''waiting for fetch_signals to start'',
                 Called (GetProcessInfo ''fetch_signals:fetch_signals_0'') (Returns ''EXITED''),
                 Called (StartProcessGroup ''run_signals'') (Returns ''True''),
                 LogInfo ''waiting for run_signals to start'',
                 Called (GetProcessInfo ''run_signals:run_signals_0'') (Returns ''RUNNING''),
                 Called (StartProcess ''autoscaler'') (Returns ''True''),
                 Called (GetProcessInfo ''autoscaler'') (Returns ''RUNNING''),
                 Called (Sleep 5) (Raises KeyboardInterrupt),
                 LogInfo ''Shutting down...'',
                 Called ProcWait (Returns ''0'')],
        script = [], running = []\<rparr>) \<and>
   calls ProcWait
     [Popen, Called (Sleep 1) (Returns ''None''),
      LogInfo ''waiting for fetch_signals to start'',
      Called (GetProcessInfo ''fetch_signals:fetch_signals_0'') (Returns ''EXITED''),
      Called (StartProcessGroup ''run_signals'') (Returns ''True''),
      LogInfo ''waiting for run_signals to start'',
      Called (GetProcessInfo ''run_signals:run_signals_0'') (Returns ''RUNNING''),
      Called (StartProcess ''autoscaler'') (Returns ''True''),
      Called (GetProcessInfo ''autoscaler'') (Returns ''RUNNING''),
      Called (Sleep 5) (Raises KeyboardInterrupt),
      LogInfo ''Shutting down...'',
      Called ProcWait (Returns ''0'')] = 1"
proof -
  let ?w = "\<lparr>trace = [],
      script = [Returns ''None'', Returns ''EXITED'', Returns ''True'', Returns ''RUNNING'',
                Returns ''True'', Returns ''RUNNING'', Raises KeyboardInterrupt, Returns ''0''],
      running = [True]\<rparr>"
  let ?tr = "[Popen, Called (Sleep 1) (Returns ''None''),
                 LogInfo ''waiting for fetch_signals to start'',
                 Called (GetProcessInfo ''fetch_signals:fetch_signals_0'') (Returns ''EXITED''),
                 Called (StartProcessGroup ''run_signals'') (Returns ''True''),
                 LogInfo ''waiting for run_signals to start'',
                 Called (GetProcessInfo ''run_signals:run_signals_0'') (Returns ''RUNNING''),
                 Called (StartProcess ''autoscaler'') (Returns ''True''),
                 Called (GetProcessInfo ''autoscaler'') (Returns ''RUNNING''),
                 Called (Sleep 5) (Raises KeyboardInterrupt),
                 LogInfo ''Shutting down...'',
                 Called ProcWait (Returns ''0'')]"
  have r: "run 1 1 ?w = Some (Inr (), \<lparr>trace = ?tr, script = [], running = []\<rparr>)"
    by (simp add: run_eval)
  from daemon_awaited_when_run_returns [OF r]
  have "calls ProcWait ?tr = 1" by auto
  with r show ?thesis by simp
qed




text \<open>
  C7, as stated, fails in the steady-state loop: both stages have started, the autoscaler
  has been started, and the first status query for the autoscaler raises \<open>OSError\<close>.
  Nothing catches it there: \<^verbatim>\<open>shutdown\<close> is called (and answers), and \<open>OSError\<close>
  leaves \<^verbatim>\<open>run\<close>, without a warning, a sleep or a second query.
\<close>

theorem steady_state_connectivity_error_surfaces:
  "run 1 1
     \<lparr>trace = [],
      script = [Returns ''None'', Returns ''EXITED'', Returns ''True'', Returns ''RUNNING'',
                Returns ''True'', Raises OSError, Returns ''True''],
      running = [True]\<rparr> =
     Some (Inl (External OSError),
       \<lparr>trace = [Popen, Called (Sleep 1) (Returns ''None''),
                 LogInfo ''waiting for fetch_signals to start'',
                 Called (GetProcessInfo ''fetch_signals:fetch_signals_0'') (Returns ''EXITED''),
                 Called (StartProcessGroup ''run_signals'') (Returns ''True''),
                 LogInfo ''waiting for run_signals to start'',
                 Called (GetProcessInfo ''run_signals:run_signals_0'') (Returns ''RUNNING''),
                 Called (StartProcess ''autoscaler'') (Returns ''True''),
                 Called (GetProcessInfo ''autoscaler'') (Raises OSError),
                 Called Shutdown (Returns ''True'')],
        script = [], running = []\<rparr>)"
  by (simp add: run_eval)

text \<open>
  C7, as amended: connectivity errors are absorbed in the stage waits only. In the history
  of every run that ends, a status query of a stage wait that raises \<open>OSError\<close> is
  followed by a warning and a sleep of one second, and, if the sleep returns, by the next
  status query; an \<open>OSError\<close> that leaves \<^verbatim>\<open>wait_for_process\<close> was never raised by a
  status query, only by that sleep. Outside the stage waits nothing catches \<open>OSError\<close>:
  when the start command of \<^verbatim>\<open>run_signals\<close>, the start command of the autoscaler or the
  status query of the steady-state loop raises it, the only call that follows is
  \<^verbatim>\<open>shutdown\<close>, and \<^verbatim>\<open>run\<close> raises to its caller: \<open>OSError\<close> if \<^verbatim>\<open>shutdown\<close> returns,
  and what \<^verbatim>\<open>shutdown\<close> raises otherwise.
\<close>

theorem connectivity_errors_absorbed_only_in_stage_waits:
  "(\<forall>w'. wait_for_process process_name num_procs terminal_state w =
           Some (Inl (External OSError), w') \<longrightarrow>
      (\<exists>tr. trace w' = trace w @ tr @ [Called (Sleep 1) (Raises OSError)])) \<and>
   (\<forall>w2. wait_for_process ''fetch_signals'' fetch_proc_count ''EXITED'' w = Some (Inr (), w2) \<longrightarrow>
      script w2 = Raises OSError # rest \<longrightarrow>
      run_try fetch_proc_count run_proc_count w =
        Some (Inl (External OSError),
              w2\<lparr>trace := trace w2 @ [Called (StartProcessGroup ''run_signals'') (Raises OSError)],
                  script := rest\<rparr>)) \<and>
   (running w = True # bs \<longrightarrow> script w = Raises OSError # rest \<longrightarrow>
      steady_state_loop w =
        Some (Inl (External OSError),
              w\<lparr>trace := trace w @ [Called (GetProcessInfo ''autoscaler'') (Raises OSError)],
                 script := rest, running := bs\<rparr>)) \<and>
   (\<forall>v w1 w2 v' w3. call (Sleep 1) (emit Popen w) = Some (Inr v, w1) \<longrightarrow>
      run_try fetch_proc_count run_proc_count w1 = Some (Inl (External OSError), w2) \<longrightarrow>
      call Shutdown w2 = Some (Inr v', w3) \<longrightarrow>
      run fetch_proc_count run_proc_count w = Some (Inl (External OSError), w3)) \<and>
   (\<forall>res w'. run fetch_proc_count run_proc_count w = Some (res, w') \<longrightarrow>
      (\<exists>tr. trace w' = trace w @ tr \<and>
         (\<forall>pre q post. tr = pre @ Called (GetProcessInfo q) (Raises OSError) # post \<longrightarrow>
            q \<noteq> ''autoscaler'' \<longrightarrow>
            (\<exists>out post'. post = LogWarning # Called (Sleep 1) out # post' \<and>
               (\<forall>v. out = Returns v \<longrightarrow>
                  (\<exists>q' out' post''. post' = Called (GetProcessInfo q') out' # post'')))) \<and>
         (\<forall>pre p post. tr = pre @ Called p (Raises OSError) # post \<longrightarrow>
            p = StartProcessGroup ''run_signals'' \<or> p = StartProcess ''autoscaler'' \<or>
            p = GetProcessInfo ''autoscaler'' \<longrightarrow>
            (\<exists>out. post = [Called Shutdown out] \<and>
               res = Inl (External (case out of Returns v \<Rightarrow> OSError | Raises x \<Rightarrow> x))))))"
proof (intro conjI allI impI)
  fix w'
  assume "wait_for_process process_name num_procs terminal_state w =
           Some (Inl (External OSError), w')"
  from loop_OSError_from_sleep [OF this [unfolded wait_for_process_def]]
  obtain tr where "trace w' = trace w @
      (LogInfo (''waiting for '' @ process_name @ '' to start'') # tr) @
      [Called (Sleep 1) (Raises OSError)]"
    by (auto simp: emit_def)
  then show "\<exists>tr. trace w' = trace w @ tr @ [Called (Sleep 1) (Raises OSError)]"
    by blast
next
  fix w2
  assume "wait_for_process ''fetch_signals'' fetch_proc_count ''EXITED'' w = Some (Inr (), w2)"
    and "script w2 = Raises OSError # rest"
  then show "run_try fetch_proc_count run_proc_count w =
        Some (Inl (External OSError),
              w2\<lparr>trace := trace w2 @ [Called (StartProcessGroup ''run_signals'') (Raises OSError)],
                  script := rest\<rparr>)"
    by (rule run_try_start_group_raises)
next
  assume "running w = True # bs" and "script w = Raises OSError # rest"
  then show "steady_state_loop w =
        Some (Inl (External OSError),
              w\<lparr>trace := trace w @ [Called (GetProcessInfo ''autoscaler'') (Raises OSError)],
                 script := rest, running := bs\<rparr>)"
    by (rule steady_state_loop_query_raises)
next
  fix v w1 w2 v' w3
  assume "call (Sleep 1) (emit Popen w) = Some (Inr v, w1)"
    and "run_try fetch_proc_count run_proc_count w1 = Some (Inl (External OSError), w2)"
    and "call Shutdown w2 = Some (Inr v', w3)"
  then show "run fetch_proc_count run_proc_count w = Some (Inl (External OSError), w3)"
    by (intro run_raises_after_shutdown) simp_all
next
  fix res w'
  assume "run fetch_proc_count run_proc_count w = Some (res, w')"
  then show "\<exists>tr. trace w' = trace w @ tr \<and>
         (\<forall>pre q post. tr = pre @ Called (GetProcessInfo q) (Raises OSError) # post \<longrightarrow>
            q \<noteq> ''autoscaler'' \<longrightarrow>
            (\<exists>out post'. post = LogWarning # Called (Sleep 1) out # post' \<and>
               (\<forall>v. out = Returns v \<longrightarrow>
                  (\<exists>q' out' post''. post' = Called (GetProcessInfo q') out' # post'')))) \<and>
         (\<forall>pre p post. tr = pre @ Called p (Raises OSError) # post \<longrightarrow>
            p = StartProcessGroup ''run_signals'' \<or> p = StartProcess ''autoscaler'' \<or>
            p = GetProcessInfo ''autoscaler'' \<longrightarrow>
            (\<exists>out. post = [Called Shutdown out] \<and>
               res = Inl (External (case out of Returns v \<Rightarrow> OSError | Raises x \<Rightarrow> x))))"
    by (rule run_exceptions)
qed

theorem connectivity_errors_absorbed_only_in_stage_waits_witness:
  "run 1 1
     \<lparr>trace = [],
      script = [Returns ''None'', Returns ''EXITED'', Raises OSError, Returns ''True''],
      running = []\<rparr> =
     Some (Inl (External OSError),
       \<lparr>trace = [Popen, Called (Sleep 1) (Returns ''None''),
                 LogInfo ''waiting for fetch_signals to start'',
                 Called (GetProcessInfo ''fetch_signals:fetch_signals_0'') (Returns ''EXITED''),
                 Called (StartProcessGroup ''run_signals'') (Raises OSError),
                 Called Shutdown (Returns ''True'')],
        script = [], running = []\<rparr>)"
proof -
  let ?w = "\<lparr>trace = [],
      script = [Returns ''None'', Returns ''EXITED'', Raises OSError, Returns ''True''],
      running = []\<rparr>"
  let ?w1 = "\<lparr>trace = [Popen, Called (Sleep 1) (Returns ''None'')],
      script = [Returns ''EXITED'', Raises OSError, Returns ''True''],
      running = []\<rparr>"
  let ?w2 = "\<lparr>trace = [Popen, Called (Sleep 1) (Returns ''None''),
                 LogInfo ''waiting for fetch_signals to start'',
                 Called (GetProcessInfo ''fetch_signals:fetch_signals_0'') (Returns ''EXITED'')],
      script = [Raises OSError, Returns ''True''],
      running = []\<rparr>"
  let ?w3 = "\<lparr>trace = [Popen, Called (Sleep 1) (Returns ''None''),
                 LogInfo ''waiting for fetch_signals to start'',
                 Called (GetProcessInfo ''fetch_signals:fetch_signals_0'') (Returns ''EXITED''),
                 Called (StartProcessGroup ''run_signals'') (Raises OSError)],
      script = [Returns ''True''],
      running = []\<rparr>"
  note inst = connectivity_errors_absorbed_only_in_stage_waits
  have s: "call (Sleep 1) (emit Popen ?w) = Some (Inr ''None'', ?w1)"
    by (simp add: call_def emit_def)
  have f: "wait_for_process ''fetch_signals'' 1 ''EXITED'' ?w1 = Some (Inr (), ?w2)"
    by (simp add: run_eval)
  from inst [of "''fetch_signals''" 1 "''EXITED''" ?w1 1 "[Returns ''True'']" 1 "[]"] f
  have t: "run_try 1 1 ?w1 = Some (Inl (External OSError), ?w3)"
    by simp
  have d: "call Shutdown ?w3 = Some (Inr ''True'',
       \<lparr>trace = [Popen, Called (Sleep 1) (Returns ''None''),
                 LogInfo ''waiting for fetch_signals to start'',
                 Called (GetProcessInfo ''fetch_signals:fetch_signals_0'') (Returns ''EXITED''),
                 Called (StartProcessGroup ''run_signals'') (Raises OSError),
                 Called Shutdown (Returns ''True'')],
        script = [], running = []\<rparr>)"
    by (simp add: call_def)
  from inst [of "''fetch_signals''" 1 "''EXITED''" ?w 1 "[]" 1 "[]"] s t d
  show ?thesis by blast
qed

end
